theory Spec2Isabelle
  imports Complex_Main "HOL-Library.Log_Nat" "HOL-Library.Char_ord" "HOL-Library.List_Lexorder"
begin

section \<open>Errors raised by the Python code\<close>

datatype py_error = IndexError | ValueError

section \<open>The matching game (\<open>BirthdayApp._build_quiz_tab\<close>, \<open>flip_card\<close>, \<open>flip_back\<close>)\<close>

text \<open>
  A button of the grid carries its caption and whether it accepts clicks
  (\<open>state="normal"\<close> is \<open>True\<close>, \<open>state="disabled"\<close> is \<open>False\<close>). The caption of a face-down
  card is a question-mark emoji in the source; it is written \<open>?\<close> here.
\<close>

record button =
  btn_text :: string
  btn_enabled :: bool

definition face_down :: button where
  "face_down = \<lparr>btn_text = ''?'', btn_enabled = True\<rparr>"

text \<open>
  The attributes of the application object that the game reads and writes. \<open>pending\<close>
  counts the \<open>flip_back\<close> callbacks handed to \<open>self.after(800, ...)\<close> that have not run
  yet; \<open>win_labels\<close> counts the labels placed by \<open>show_win_message\<close>.
\<close>

record game =
  game_words :: "string list"
  buttons :: "button list"
  flipped :: "nat list"
  matched :: "nat list"
  pending :: nat
  win_labels :: nat

text \<open>
  \<open>_build_quiz_tab\<close> shuffles twelve words and creates one button per grid cell. The
  shuffled list is the argument here, and there is one button per word.
\<close>

definition build_quiz :: "string list \<Rightarrow> game" where
  "build_quiz ws =
     \<lparr>game_words = ws, buttons = replicate (length ws) face_down,
      flipped = [], matched = [], pending = 0, win_labels = 0\<rparr>"

definition show_win_message :: "game \<Rightarrow> game" where
  "show_win_message g = g\<lparr>win_labels := Suc (win_labels g)\<rparr>"

text \<open>
  \<open>flip_card\<close>. Reading \<open>self.buttons[index]\<close> or \<open>self.game_words[index]\<close> out of range
  raises \<open>IndexError\<close> before anything is written.
\<close>

definition flip_card :: "nat \<Rightarrow> game \<Rightarrow> py_error + game" where
  "flip_card index g =
     (if index \<in> set (matched g) \<or> index \<in> set (flipped g) then Inr g
      else if length (buttons g) \<le> index \<or> length (game_words g) \<le> index then Inl IndexError
      else
        let g1 = g\<lparr>buttons := (buttons g)
                       [index := \<lparr>btn_text = game_words g ! index, btn_enabled = False\<rparr>],
                    flipped := flipped g @ [index]\<rparr>
        in (case flipped g1 of
              [i1, i2] \<Rightarrow>
                (if length (game_words g1) \<le> i1 then Inl IndexError
                 else if game_words g1 ! i1 = game_words g1 ! i2 then
                   let g2 = g1\<lparr>matched := matched g1 @ [i1, i2], flipped := []\<rparr>
                   in Inr (if length (matched g2) = length (game_words g2)
                           then show_win_message g2 else g2)
                 else Inr (g1\<lparr>pending := Suc (pending g1)\<rparr>))
            | _ \<Rightarrow> Inr g1))"

text \<open>\<open>flip_back\<close>: every index of the flipped list is turned face down again.\<close>

definition flip_back :: "game \<Rightarrow> game" where
  "flip_back g =
     g\<lparr>buttons := foldl (\<lambda>bs i. bs[i := face_down]) (buttons g) (flipped g),
       flipped := []\<rparr>"

text \<open>The timer runs one scheduled \<open>flip_back\<close>, if there is one.\<close>

definition timer_fires :: "game \<Rightarrow> game" where
  "timer_fires g = (if pending g = 0 then g else flip_back (g\<lparr>pending := pending g - 1\<rparr>))"

text \<open>A sequence of clicks; an exception ends it.\<close>

fun reveals :: "nat list \<Rightarrow> game \<Rightarrow> py_error + game" where
  "reveals [] g = Inr g"
| "reveals (i # is) g = (case flip_card i g of Inl e \<Rightarrow> Inl e | Inr g' \<Rightarrow> reveals is g')"

section \<open>The drawing surface (the part of \<open>tk.Canvas\<close> the effects use)\<close>

text \<open>
  A canvas holds its items in creation order; every item has its own integer id, a
  coordinate list \<open>[x1, y1, x2, y2]\<close>, a fill colour and a list of tags. Tk stores
  coordinates as doubles; they are real numbers here.
\<close>

datatype kind = Oval | Line

record item =
  item_id :: nat
  item_kind :: kind
  coords :: "real list"
  fill :: string
  tags :: "string list"

record canvas =
  items :: "item list"
  next_id :: nat

definition empty_canvas :: canvas where
  "empty_canvas = \<lparr>items = [], next_id = 1\<rparr>"

definition create_item :: "kind \<Rightarrow> real list \<Rightarrow> string \<Rightarrow> string list \<Rightarrow> canvas \<Rightarrow> nat \<times> canvas" where
  "create_item k cs col tgs c =
     (next_id c,
      c\<lparr>items := items c @ [\<lparr>item_id = next_id c, item_kind = k, coords = cs, fill = col, tags = tgs\<rparr>],
        next_id := Suc (next_id c)\<rparr>)"

fun shift :: "real \<Rightarrow> real \<Rightarrow> real list \<Rightarrow> real list" where
  "shift dx dy (x # y # cs) = (x + dx) # (y + dy) # shift dx dy cs"
| "shift dx dy cs = cs"

text \<open>\<open>canvas.move(item, dx, dy)\<close>; an id that names no item moves nothing.\<close>

definition canvas_move :: "canvas \<Rightarrow> nat \<Rightarrow> real \<Rightarrow> real \<Rightarrow> canvas" where
  "canvas_move c i dx dy =
     c\<lparr>items := map (\<lambda>it. if item_id it = i then it\<lparr>coords := shift dx dy (coords it)\<rparr> else it)
                    (items c)\<rparr>"

definition canvas_item :: "canvas \<Rightarrow> nat \<Rightarrow> item option" where
  "canvas_item c i = find (\<lambda>it. item_id it = i) (items c)"

text \<open>\<open>canvas.coords(item)\<close>; the empty list for an id that names no item.\<close>

definition canvas_coords :: "canvas \<Rightarrow> nat \<Rightarrow> real list" where
  "canvas_coords c i = (case canvas_item c i of None \<Rightarrow> [] | Some it \<Rightarrow> coords it)"

text \<open>\<open>canvas.delete(tag)\<close> removes every item that carries the tag.\<close>

definition canvas_delete :: "string \<Rightarrow> canvas \<Rightarrow> canvas" where
  "canvas_delete tg c = c\<lparr>items := filter (\<lambda>it. tg \<notin> set (tags it)) (items c)\<rparr>"

section \<open>Python floats\<close>

text \<open>
  The scale of the heart is a Python float, and which tick turns the beat around is
  decided by comparing rounded sums with the rounded constants \<open>1.08\<close> and \<open>0.92\<close>. A
  float is the rational number it denotes; \<open>fl\<close> rounds a rational to the nearest
  binary64 value (53 significant bits, ties to even), and a float literal or a float
  addition is the rounded exact value. The exponent range of binary64 is left out: every
  value met in the beat lies between \<open>1 / 64\<close> and \<open>2\<close>.

  The confetti's coordinates, speeds and drifts are floats as well (Tk keeps the
  coordinates of an oval as doubles and \<open>canvas.move\<close> adds to them); they stay far
  below the overflow threshold, and a sum or difference of two doubles that is too small
  for a normal number is exact, so that leaving out the exponent range does not change
  them either.
\<close>

definition fl_exp :: "rat \<Rightarrow> int" where
  "fl_exp x =
     (case quotient_of \<bar>x\<bar> of (p, q) \<Rightarrow>
        let d = bitlen p - bitlen q in if 2 powi d \<le> \<bar>x\<bar> then d else d - 1)"

definition round_even :: "rat \<Rightarrow> int" where
  "round_even m =
     (let f = \<lfloor>m\<rfloor>; r = m - of_int f
      in if r < 1 / 2 then f else if 1 / 2 < r then f + 1 else if even f then f else f + 1)"

definition fl :: "rat \<Rightarrow> rat" where
  "fl x = (if x = 0 then 0
           else let u = 2 powi (fl_exp x - 52) in of_int (round_even (x / u)) * u)"

definition fadd :: "rat \<Rightarrow> rat \<Rightarrow> rat" where
  "fadd x y = fl (x + y)"

definition fsub :: "rat \<Rightarrow> rat \<Rightarrow> rat" where
  "fsub x y = fl (x - y)"

text \<open>An \<open>int\<close> that meets a float in an arithmetic expression is converted to a float.\<close>

definition float_of_int :: "int \<Rightarrow> rat" where
  "float_of_int n = fl (rat_of_int n)"

section \<open>Confetti\<close>

text \<open>
  \<open>random.randint(a, b)\<close>: \<open>ValueError\<close> on an empty range, otherwise an integer of
  \<open>[a, b]\<close> chosen by the generator's next raw value. The distribution is not modelled.
\<close>

definition randint :: "int \<Rightarrow> int \<Rightarrow> nat \<Rightarrow> py_error + int" where
  "randint a b raw = (if b < a then Inl ValueError else Inr (a + int (raw mod nat (b - a + 1))))"

definition COLORS :: "string list" where
  "COLORS = [''#ff4d6d'', ''#fca311'', ''#48bfe3'', ''#64dfdf'', ''#80ed99'',
             ''#b5179e'', ''#ffd166'', ''#06d6a0'', ''#ef476f'', ''#118ab2'']"

text \<open>
  Where a piece of confetti ends up depends on the rounding of every addition, so for the
  confetti the canvas is modelled with the arithmetic Tk uses: the coordinates of an item
  are binary64 values, and \<open>canvas.move\<close> replaces each by the rounded sum.
\<close>

record fitem =
  fitem_id :: nat
  fitem_kind :: kind
  fcoords :: "rat list"
  ffill :: string
  ftags :: "string list"

record fcanvas =
  fitems :: "fitem list"
  fnext_id :: nat

definition empty_fcanvas :: fcanvas where
  "empty_fcanvas = \<lparr>fitems = [], fnext_id = 1\<rparr>"

definition fcreate_item :: "kind \<Rightarrow> rat list \<Rightarrow> string \<Rightarrow> string list \<Rightarrow> fcanvas \<Rightarrow> nat \<times> fcanvas" where
  "fcreate_item k cs col tgs c =
     (fnext_id c,
      c\<lparr>fitems := fitems c @
           [\<lparr>fitem_id = fnext_id c, fitem_kind = k, fcoords = cs, ffill = col, ftags = tgs\<rparr>],
        fnext_id := Suc (fnext_id c)\<rparr>)"

fun fshift :: "rat \<Rightarrow> rat \<Rightarrow> rat list \<Rightarrow> rat list" where
  "fshift dx dy (x # y # cs) = fadd x dx # fadd y dy # fshift dx dy cs"
| "fshift dx dy cs = cs"

definition fcanvas_move :: "fcanvas \<Rightarrow> nat \<Rightarrow> rat \<Rightarrow> rat \<Rightarrow> fcanvas" where
  "fcanvas_move c i dx dy =
     c\<lparr>fitems := map (\<lambda>it. if fitem_id it = i then it\<lparr>fcoords := fshift dx dy (fcoords it)\<rparr> else it)
                     (fitems c)\<rparr>"

definition fcanvas_item :: "fcanvas \<Rightarrow> nat \<Rightarrow> fitem option" where
  "fcanvas_item c i = find (\<lambda>it. fitem_id it = i) (fitems c)"

definition fcanvas_coords :: "fcanvas \<Rightarrow> nat \<Rightarrow> rat list" where
  "fcanvas_coords c i = (case fcanvas_item c i of None \<Rightarrow> [] | Some it \<Rightarrow> fcoords it)"

text \<open>
  The six random choices \<open>Confetti.__init__\<close> makes for one piece: the raw values behind
  the three \<open>randint\<close> calls and \<open>random.choice\<close>, and the two \<open>random.uniform\<close> results.
\<close>

record draw =
  raw_x :: nat
  raw_y :: nat
  raw_r :: nat
  raw_color :: nat
  uni_speed :: rat
  uni_drift :: rat

text \<open>\<open>random.uniform(1.5, 4.0)\<close> and \<open>random.uniform(-1.0, 1.0)\<close> stay within their bounds.\<close>

definition valid_draw :: "draw \<Rightarrow> bool" where
  "valid_draw d \<longleftrightarrow> 3 / 2 \<le> uni_speed d \<and> uni_speed d \<le> 4 \<and> - 1 \<le> uni_drift d \<and> uni_drift d \<le> 1"

text \<open>A piece is the tuple \<open>(shape, speed, drift)\<close>.\<close>

type_synonym piece = "nat \<times> rat \<times> rat"

record confetti =
  cf_w :: int
  cf_h :: int
  pieces :: "piece list"

definition new_piece :: "int \<Rightarrow> int \<Rightarrow> draw \<Rightarrow> fcanvas \<Rightarrow> py_error + piece \<times> fcanvas" where
  "new_piece w h d c =
     (case randint 0 w (raw_x d) of Inl e \<Rightarrow> Inl e | Inr x \<Rightarrow>
     (case randint (- h) 0 (raw_y d) of Inl e \<Rightarrow> Inl e | Inr y \<Rightarrow>
     (case randint 3 7 (raw_r d) of Inl e \<Rightarrow> Inl e | Inr r \<Rightarrow>
        (let color = COLORS ! (raw_color d mod length COLORS);
             (shape, c') = fcreate_item Oval [float_of_int x, float_of_int y,
                              float_of_int (x + r), float_of_int (y + r)] color [''confetti''] c
         in Inr ((shape, uni_speed d, uni_drift d), c')))))"

fun new_pieces :: "int \<Rightarrow> int \<Rightarrow> draw list \<Rightarrow> piece list \<Rightarrow> fcanvas \<Rightarrow> py_error + piece list \<times> fcanvas" where
  "new_pieces w h [] ps c = Inr (ps, c)"
| "new_pieces w h (d # ds) ps c =
     (case new_piece w h d c of Inl e \<Rightarrow> Inl e
      | Inr (p, c') \<Rightarrow> new_pieces w h ds (ps @ [p]) c')"

text \<open>\<open>Confetti.__init__\<close>, with one draw per piece (\<open>count\<close> is the number of draws).\<close>

definition Confetti :: "fcanvas \<Rightarrow> int \<Rightarrow> int \<Rightarrow> draw list \<Rightarrow> py_error + confetti \<times> fcanvas" where
  "Confetti c w h ds =
     (case new_pieces w h ds [] c of Inl e \<Rightarrow> Inl e
      | Inr (ps, c') \<Rightarrow> Inr (\<lparr>cf_w = w, cf_h = h, pieces = ps\<rparr>, c'))"

text \<open>
  The body of the loop of \<open>Confetti.step\<close> for one piece. \<open>rng\<close> is the stream of raw
  values of the generator and \<open>k\<close> the number already consumed. Unpacking the result of
  \<open>coords\<close> into four names raises \<open>ValueError\<close> when it does not have four elements.
  The test \<open>y1 > self.h\<close> compares a float with an \<open>int\<close>, which Python does exactly; \<open>dx\<close>
  and the vertical offset are float differences.
\<close>

definition step_piece :: "int \<Rightarrow> int \<Rightarrow> (nat \<Rightarrow> nat) \<Rightarrow> piece \<Rightarrow> fcanvas \<times> nat \<Rightarrow> py_error + fcanvas \<times> nat" where
  "step_piece w h rng p s =
     (case (p, s) of ((shape, speed, drift), (c, k)) \<Rightarrow>
        let c1 = fcanvas_move c shape drift speed in
        (case fcanvas_coords c1 shape of
           [x1, y1, x2, y2] \<Rightarrow>
             if y1 > rat_of_int h then
               (case randint 0 w (rng k) of Inl e \<Rightarrow> Inl e
                | Inr r \<Rightarrow>
                    let dx = fsub (float_of_int r) x1
                    in Inr (fcanvas_move c1 shape dx (fsub (float_of_int (- h)) (fsub y2 y1)), Suc k))
             else Inr (c1, k)
         | _ \<Rightarrow> Inl ValueError))"

fun step_pieces :: "int \<Rightarrow> int \<Rightarrow> (nat \<Rightarrow> nat) \<Rightarrow> piece list \<Rightarrow> fcanvas \<times> nat \<Rightarrow> py_error + fcanvas \<times> nat" where
  "step_pieces w h rng [] s = Inr s"
| "step_pieces w h rng (p # ps) s =
     (case step_piece w h rng p s of Inl e \<Rightarrow> Inl e | Inr s' \<Rightarrow> step_pieces w h rng ps s')"

text \<open>\<open>Confetti.step\<close>.\<close>

definition step :: "confetti \<Rightarrow> (nat \<Rightarrow> nat) \<Rightarrow> fcanvas \<times> nat \<Rightarrow> py_error + fcanvas \<times> nat" where
  "step cf rng s = step_pieces (cf_w cf) (cf_h cf) rng (pieces cf) s"

section \<open>Balloons (\<open>BirthdayApp.animate_balloons\<close>)\<close>

text \<open>The balloons are created one per colour: an oval and, below it, a line.\<close>

fun new_balloons :: "nat \<Rightarrow> string list \<Rightarrow> canvas \<Rightarrow> (nat \<times> nat) list \<times> canvas" where
  "new_balloons i [] c = ([], c)"
| "new_balloons i (color # colors) c =
     (let x = (if i mod 2 = 0 then 30 else 70 :: real);
          y = 400 + real i * 60;
          (b, c1) = create_item Oval [x, y, x + 40, y + 50] color [] c;
          (s, c2) = create_item Line [x + 20, y + 50, x + 20, y + 70] ''black'' [] c1;
          (bs, c3) = new_balloons (Suc i) colors c2
      in ((b, s) # bs, c3))"

text \<open>
  The body of the loop of \<open>float_up\<close> for one balloon; \<open>canvas.coords(b)[1]\<close> raises
  \<open>IndexError\<close> when the list has fewer than two elements.
\<close>

definition float_balloon :: "nat \<times> nat \<Rightarrow> canvas \<Rightarrow> py_error + canvas" where
  "float_balloon bs c =
     (case bs of (b, s) \<Rightarrow>
        let c1 = canvas_move (canvas_move c b 0 (- 1)) s 0 (- 1) in
        (case canvas_coords c1 b of
           x # y # rest \<Rightarrow>
             if y < - 60 then
               let dy = 500 in Inr (canvas_move (canvas_move c1 b 0 dy) s 0 dy)
             else Inr c1
         | _ \<Rightarrow> Inl IndexError))"

fun float_up :: "(nat \<times> nat) list \<Rightarrow> canvas \<Rightarrow> py_error + canvas" where
  "float_up [] c = Inr c"
| "float_up (bs # rest) c =
     (case float_balloon bs c of Inl e \<Rightarrow> Inl e | Inr c' \<Rightarrow> float_up rest c')"

section \<open>The beating heart (\<open>heart_points\<close>, \<open>BirthdayApp.draw_beating_heart\<close>)\<close>

subsection \<open>The outline and the beat\<close>

text \<open>\<open>heart_points\<close>; the geometry is computed over the reals.\<close>

definition heart_points :: "real \<Rightarrow> real \<Rightarrow> real \<Rightarrow> nat \<Rightarrow> (real \<times> real) list" where
  "heart_points cx cy sz steps =
     map (\<lambda>i. let t = real i * (2 * pi / real steps);
                   x = 16 * sin t ^ 3;
                   y = 13 * cos t - 5 * cos (2 * t) - 2 * cos (3 * t) - cos (4 * t)
               in (cx + x * (sz / 32), cy - y * (sz / 32)))
         [0..<steps]"

text \<open>The loop of \<open>beat\<close> that draws one line per point, to the next point cyclically.\<close>

definition draw_lines :: "(real \<times> real) list \<Rightarrow> canvas \<Rightarrow> canvas" where
  "draw_lines pts c =
     foldl (\<lambda>c i. snd (create_item Line
                          [fst (pts ! i), snd (pts ! i),
                           fst (pts ! (Suc i mod length pts)), snd (pts ! (Suc i mod length pts))]
                          ''#ff4d6d'' [''heart''] c))
           c [0..<length pts]"

text \<open>
  The arguments \<open>beat\<close> hands to its next call: \<open>next_scale\<close> and the direction after the
  two tests.
\<close>

definition next_beat :: "rat \<times> bool \<Rightarrow> rat \<times> bool" where
  "next_beat sg =
     (case sg of (scale, growing) \<Rightarrow>
        let next_scale = fadd scale (if growing then fl (2 / 100) else - fl (2 / 100));
            growing1 = (if next_scale > fl (108 / 100) then False else growing);
            growing2 = (if next_scale < fl (92 / 100) then True else growing1)
        in (next_scale, growing2))"

text \<open>
  The state the heart shares with the rest of the home tab: the canvas, the flag
  \<open>self.animating\<close>, and the calls of \<open>beat\<close> handed to \<open>self.after(50, ...)\<close> that have not
  run yet, oldest first. \<open>hx\<close>, \<open>hy\<close> and \<open>hbase\<close> are the centre and base size that the
  closure \<open>beat\<close> captured.
\<close>

record home =
  home_canvas :: canvas
  animating :: bool
  scheduled :: "(rat \<times> bool) list"
  hx :: real
  hy :: real
  hbase :: real

definition beat :: "rat \<times> bool \<Rightarrow> home \<Rightarrow> home" where
  "beat sg a =
     (if \<not> animating a then a
      else
        let c1 = canvas_delete ''heart'' (home_canvas a);
            pts = heart_points (hx a) (hy a) (hbase a * of_rat (fst sg)) 160
        in a\<lparr>home_canvas := draw_lines pts c1, scheduled := scheduled a @ [next_beat sg]\<rparr>)"

text \<open>\<open>draw_beating_heart\<close>, for a canvas of width \<open>w\<close> and height \<open>h\<close>.\<close>

definition draw_beating_heart :: "int \<Rightarrow> int \<Rightarrow> home \<Rightarrow> home" where
  "draw_beating_heart w h a =
     (if animating a then
        a\<lparr>animating := False, home_canvas := canvas_delete ''heart'' (home_canvas a)\<rparr>
      else
        beat (1, True)
          (a\<lparr>animating := True, hx := real_of_int (w div 2), hy := real_of_int (h div 2),
             hbase := real_of_int (min w h) * (35 / 100)\<rparr>))"

text \<open>The timer runs the oldest scheduled call of \<open>beat\<close>.\<close>

definition beat_timer_fires :: "home \<Rightarrow> home" where
  "beat_timer_fires a =
     (case scheduled a of [] \<Rightarrow> a | sg # rest \<Rightarrow> beat sg (a\<lparr>scheduled := rest\<rparr>))"

section \<open>The image loader (\<open>ImageLoader\<close>)\<close>

text \<open>
  A photo image is an object: \<open>img_id\<close> is its identity, fresh for every image created.
\<close>

record image =
  img_id :: nat
  img_w :: nat
  img_h :: nat

text \<open>
  What lies outside the program: whether Pillow is installed, \<open>os.path.abspath\<close>, and what
  the files hold at the moment of a call. \<open>pillow_open p mw mh\<close> is the outcome of
  \<open>Image.open(p)\<close> followed by \<open>thumbnail((mw, mh))\<close>, and \<open>tk_open p\<close> the outcome of
  \<open>tk.PhotoImage(file=p)\<close>: the message of the exception raised, or the size of the image.
\<close>

record env =
  PIL_AVAILABLE :: bool
  abspath :: "string \<Rightarrow> string"
  pillow_open :: "string \<Rightarrow> int \<Rightarrow> int \<Rightarrow> string + nat \<times> nat"
  tk_open :: "string \<Rightarrow> string + nat \<times> nat"

text \<open>
  The loader: its cache and bounds, the counter that gives images their identity, the
  paths handed to a decoder (in order) and the lines printed.
\<close>

record loader =
  cache :: "string \<rightharpoonup> image"
  max_w :: int
  max_h :: int
  next_img :: nat
  decoded :: "string list"
  printed :: "string list"

definition ImageLoader :: "int \<Rightarrow> int \<Rightarrow> loader" where
  "ImageLoader mw mh =
     \<lparr>cache = Map.empty, max_w = mw, max_h = mh, next_img = 0, decoded = [], printed = []\<rparr>"

definition load_with_pillow :: "env \<Rightarrow> loader \<Rightarrow> string \<Rightarrow> string + nat \<times> nat" where
  "load_with_pillow ev ld path = pillow_open ev path (max_w ld) (max_h ld)"

text \<open>
  \<open>_load_with_tk\<close>: an image larger than the bounds is subsampled by the integer factor
  \<open>k\<close>, which leaves \<open>\<lceil>w / k\<rceil>\<close> by \<open>\<lceil>h / k\<rceil>\<close> pixels. A bound of zero raises
  \<open>ZeroDivisionError\<close>.
\<close>

definition load_with_tk :: "env \<Rightarrow> loader \<Rightarrow> string \<Rightarrow> string + nat \<times> nat" where
  "load_with_tk ev ld path =
     (case tk_open ev path of Inl msg \<Rightarrow> Inl msg
      | Inr (w, h) \<Rightarrow>
          if max_w ld = 0 \<or> max_h ld = 0 then Inl ''division by zero''
          else
            let scale = max (max (rat_of_nat w / rat_of_int (max_w ld))
                                 (rat_of_nat h / rat_of_int (max_h ld))) 1
            in if scale > 1 then
                 let k = nat \<lceil>scale\<rceil> in Inr ((w + k - 1) div k, (h + k - 1) div k)
               else Inr (w, h))"

definition decode :: "env \<Rightarrow> loader \<Rightarrow> string \<Rightarrow> string + nat \<times> nat" where
  "decode ev ld path =
     (if PIL_AVAILABLE ev then load_with_pillow ev ld path else load_with_tk ev ld path)"

text \<open>
  \<open>ImageLoader.load\<close>: the result is the image, or \<open>None\<close> after a failure; \<open>except
  Exception\<close> catches whatever the decoder raises.
\<close>

definition load :: "env \<Rightarrow> string \<Rightarrow> loader \<Rightarrow> image option \<times> loader" where
  "load ev path0 ld =
     (let path = abspath ev path0 in
      case cache ld path of
        Some ph \<Rightarrow> (Some ph, ld)
      | None \<Rightarrow>
          (case decode ev ld path of
             Inl msg \<Rightarrow>
               (None, ld\<lparr>decoded := decoded ld @ [path],
                         printed := printed ld @
                           [''[ImageLoader] Failed to load '' @ path @ '': '' @ msg]\<rparr>)
           | Inr (w, h) \<Rightarrow>
               let ph = \<lparr>img_id = next_img ld, img_w = w, img_h = h\<rparr>
               in (Some ph, ld\<lparr>cache := (cache ld)(path \<mapsto> ph),
                               next_img := Suc (next_img ld),
                               decoded := decoded ld @ [path]\<rparr>)))"

text \<open>
  An environment for the examples: no Pillow, the working directory \<open>/app\<close>, and one
  answer of \<open>tk.PhotoImage\<close> for every file.
\<close>

definition demo_env :: "(string + nat \<times> nat) \<Rightarrow> env" where
  "demo_env file =
     \<lparr>PIL_AVAILABLE = False,
      abspath = (\<lambda>p. if take 1 p = ''/'' then p else ''/app/'' @ p),
      pillow_open = (\<lambda>p mw mh. Inl ''No module named PIL''),
      tk_open = (\<lambda>p. file)\<rparr>"

subsection \<open>\<open>ImageLoader.list_images\<close>\<close>

text \<open>
  \<open>str.lower\<close> on the letters \<open>A\<close> to \<open>Z\<close>; a string is a list of 8-bit characters, and
  every other character is left as it is.
\<close>

definition lower_char :: "char \<Rightarrow> char" where
  "lower_char c =
     (let n = of_char c :: nat in if 65 \<le> n \<and> n \<le> 90 then char_of (n + 32) else c)"

definition lower :: "string \<Rightarrow> string" where
  "lower s = map lower_char s"

text \<open>\<open>str.rfind\<close> for a single character: the last index that holds it, or \<open>-1\<close>.\<close>

definition rfind :: "string \<Rightarrow> char \<Rightarrow> int" where
  "rfind p c =
     (case filter (\<lambda>i. p ! i = c) (rev [0..<length p]) of [] \<Rightarrow> - 1 | i # _ \<Rightarrow> int i)"

text \<open>
  The loop of \<open>genericpath._splitext\<close> that skips leading dots: it finds a character
  other than the dot between \<open>filenameIndex\<close> and \<open>dotIndex\<close>, or runs out.
\<close>

function skip_dots :: "string \<Rightarrow> int \<Rightarrow> int \<Rightarrow> bool" where
  "skip_dots p filenameIndex dotIndex =
     (if filenameIndex < dotIndex then
        (if p ! nat filenameIndex \<noteq> CHR ''.'' then True
         else skip_dots p (filenameIndex + 1) dotIndex)
      else False)"
  by pat_completeness auto
termination
  by (relation "measure (\<lambda>(p, i, j). nat (j - i))") auto

declare skip_dots.simps [simp del]

text \<open>\<open>os.path.splitext\<close> (POSIX).\<close>

definition splitext :: "string \<Rightarrow> string \<times> string" where
  "splitext p =
     (let sepIndex = rfind p CHR ''/''; dotIndex = rfind p CHR ''.''
      in if dotIndex > sepIndex \<and> skip_dots p (sepIndex + 1) dotIndex
         then (take (nat dotIndex) p, drop (nat dotIndex) p)
         else (p, []))"

text \<open>\<open>os.path.join\<close> (POSIX) of two components.\<close>

definition path_join :: "string \<Rightarrow> string \<Rightarrow> string" where
  "path_join a b =
     (if b \<noteq> [] \<and> hd b = CHR ''/'' then b
      else if a = [] \<or> last a = CHR ''/'' then a @ b
      else a @ ''/'' @ b)"

definition exts :: "bool \<Rightarrow> string list" where
  "exts pil = (if pil then [''.png'', ''.gif'', ''.jpg'', ''.jpeg''] else [''.png'', ''.gif''])"

text \<open>
  \<open>list_images\<close>: \<open>img_dir\<close> is \<open>IMG_DIR\<close>, \<open>isdir\<close> the answer of \<open>os.path.isdir(IMG_DIR)\<close>
  and \<open>listing\<close> the names \<open>os.listdir(IMG_DIR)\<close> returns. \<open>files.sort()\<close> orders strings
  by their characters' codes.
\<close>

definition list_images :: "bool \<Rightarrow> string \<Rightarrow> bool \<Rightarrow> string list \<Rightarrow> string list" where
  "list_images pil img_dir isdir listing =
     (if \<not> isdir then []
      else sort (map (path_join img_dir)
                  (filter (\<lambda>f. snd (splitext (lower f)) \<in> set (exts pil)) listing)))"

section \<open>Auxiliary notions and example states\<close>

text \<open>The ids of the items that make up a list of balloons.\<close>

definition balloon_ids :: "(nat \<times> nat) list \<Rightarrow> nat list" where
  "balloon_ids bs = concat (map (\<lambda>(b, s). [b, s]) bs)"

text \<open>What an item looks like, apart from where it is: its kind, colour and tags.\<close>

definition appearance :: "fcanvas \<Rightarrow> nat \<Rightarrow> (kind \<times> string \<times> string list) option" where
  "appearance c j = map_option (\<lambda>it. (fitem_kind it, ffill it, ftags it)) (fcanvas_item c j)"

text \<open>
  Whether a piece leaves the canvas in the next step: its oval's top edge, moved down by
  the piece's speed, is beyond the height.
\<close>

definition leaves :: "int \<Rightarrow> fcanvas \<Rightarrow> piece \<Rightarrow> bool" where
  "leaves h c p =
     (case fcanvas_coords c (fst p) of
        [x1, y1, x2, y2] \<Rightarrow> rat_of_int h < fadd y1 (fst (snd p))
      | _ \<Rightarrow> False)"

text \<open>
  The timer loops: \<open>float_up\<close> and \<open>_animate_confetti\<close> schedule themselves again after
  every run; \<open>n\<close> runs in a row are
\<close>

fun float_loop :: "nat \<Rightarrow> (nat \<times> nat) list \<Rightarrow> canvas \<Rightarrow> py_error + canvas" where
  "float_loop 0 bs c = Inr c"
| "float_loop (Suc n) bs c =
     (case float_up bs c of Inl e \<Rightarrow> Inl e | Inr c' \<Rightarrow> float_loop n bs c')"

fun step_loop :: "nat \<Rightarrow> confetti \<Rightarrow> (nat \<Rightarrow> nat) \<Rightarrow> fcanvas \<times> nat \<Rightarrow> py_error + fcanvas \<times> nat" where
  "step_loop 0 cf rng s = Inr s"
| "step_loop (Suc n) cf rng s =
     (case step cf rng s of Inl e \<Rightarrow> Inl e | Inr s' \<Rightarrow> step_loop n cf rng s')"

text \<open>
  The canvas of \<open>animate_balloons\<close> for the colours red and blue, with the first balloon's
  top edge at \<open>y\<close> (it is created at \<open>y = 400\<close>).
\<close>

definition two_balloons :: "real \<Rightarrow> canvas" where
  "two_balloons y =
     \<lparr>items =
        [\<lparr>item_id = 1, item_kind = Oval, coords = [30, y, 70, y + 50], fill = ''red'', tags = []\<rparr>,
         \<lparr>item_id = 2, item_kind = Line, coords = [50, y + 50, 50, y + 70], fill = ''black'', tags = []\<rparr>,
         \<lparr>item_id = 3, item_kind = Oval, coords = [70, y + 60, 110, y + 110], fill = ''blue'', tags = []\<rparr>,
         \<lparr>item_id = 4, item_kind = Line, coords = [90, y + 110, 90, y + 130], fill = ''black'', tags = []\<rparr>],
      next_id = 5\<rparr>"

text \<open>A canvas with a single piece of confetti, three units wide, at \<open>(x, y)\<close>.\<close>

definition one_piece :: "rat \<Rightarrow> rat \<Rightarrow> fcanvas" where
  "one_piece x y =
     \<lparr>fitems = [\<lparr>fitem_id = 1, fitem_kind = Oval, fcoords = [x, y, x + 3, y + 3],
                 ffill = ''#ff4d6d'', ftags = [''confetti'']\<rparr>],
      fnext_id = 2\<rparr>"

definition demo_confetti :: confetti where
  "demo_confetti = \<lparr>cf_w = 800, cf_h = 500, pieces = [(1, 7 / 2, 1 / 2)]\<rparr>"

text \<open>A canvas with two pieces of confetti, the second one about to leave it.\<close>

definition two_pieces :: fcanvas where
  "two_pieces =
     \<lparr>fitems =
        [\<lparr>fitem_id = 1, fitem_kind = Oval, fcoords = [10, 100, 15, 105],
          ffill = ''#ff4d6d'', ftags = [''confetti'']\<rparr>,
         \<lparr>fitem_id = 2, fitem_kind = Oval, fcoords = [200, 499, 203, 502],
          ffill = ''#fca311'', ftags = [''confetti'']\<rparr>],
      fnext_id = 3\<rparr>"

text \<open>
  A canvas with one piece of confetti late in its fall, and its confetti. The coordinates,
  the speed \<open>2.272127245273456\<close> and the drift \<open>-0.5670189481217509\<close> are written as the
  fractions these floats denote.
\<close>

definition late_piece :: fcanvas where
  "late_piece =
     \<lparr>fitems = [\<lparr>fitem_id = 1, fitem_kind = Oval,
                 fcoords = [- (6704756475332449 / 70368744177664), 4389646347137867 / 8796093022208,
                            - (3246825121399727 / 35184372088832), 4416034626204491 / 8796093022208],
                 ffill = ''#ff4d6d'', ftags = [''confetti'']\<rparr>],
      fnext_id = 2\<rparr>"

definition late_confetti :: confetti where
  "late_confetti =
     \<lparr>cf_w = 800, cf_h = 500,
      pieces = [(1, 639546963446993 / 281474976710656, - (319203290434141 / 562949953421312))]\<rparr>"

text \<open>
  The argument pairs \<open>(scale, growing)\<close> of the first eighteen calls of \<open>beat\<close>, as Python
  computes them from \<open>beat(1.0, True)\<close>.
\<close>

definition beat_orbit :: "(rat \<times> bool) list" where
  "beat_orbit =
     [(1, True),
      (2296835809958953 / 2251799813685248, True),
      (1170935903116329 / 1125899906842624, True),
      (2386907802506363 / 2251799813685248, True),
      (607985949695017 / 562949953421312, True),
      (2476979795053773 / 2251799813685248, False),
      (607985949695017 / 562949953421312, False),
      (2386907802506363 / 2251799813685248, False),
      (1170935903116329 / 1125899906842624, False),
      (2296835809958953 / 2251799813685248, False),
      (1, False),
      (2206763817411543 / 2251799813685248, False),
      (1080863910568919 / 1125899906842624, False),
      (2116691824864133 / 2251799813685248, False),
      (517913957147607 / 562949953421312, True),
      (2116691824864133 / 2251799813685248, True),
      (1080863910568919 / 1125899906842624, True),
      (2206763817411543 / 2251799813685248, True)]"

section \<open>Properties of the matching game\<close>

lemma build_quiz_4:
  "build_quiz [a, b, c, d] =
     \<lparr>game_words = [a, b, c, d], buttons = [face_down, face_down, face_down, face_down],
      flipped = [], matched = [], pending = 0, win_labels = 0\<rparr>"
  by (simp add: build_quiz_def)

text \<open>
  C4 (as the code has it). With the words \<open>[A, A, B, B]\<close> and every card face down,
  \<open>reveal(0)\<close> then \<open>reveal(1)\<close> leaves cards 0 and 1 matched and showing their word, the
  flipped list empty and no \<open>flip_back\<close> scheduled: the pair is resolved inside the second
  call. No win message is shown at that point, since only two of the four cards are
  matched; it is shown once, after \<open>reveal(2)\<close> and \<open>reveal(3)\<close> have matched the other pair.
\<close>

theorem flip_card_pair_then_win:
  "reveals [0, 1] (build_quiz [A, A, B, B]) =
     Inr \<lparr>game_words = [A, A, B, B],
          buttons = [\<lparr>btn_text = A, btn_enabled = False\<rparr>, \<lparr>btn_text = A, btn_enabled = False\<rparr>,
                     face_down, face_down],
          flipped = [], matched = [0, 1], pending = 0, win_labels = 0\<rparr>
   \<and> reveals [0, 1, 2, 3] (build_quiz [A, A, B, B]) =
     Inr \<lparr>game_words = [A, A, B, B],
          buttons = [\<lparr>btn_text = A, btn_enabled = False\<rparr>, \<lparr>btn_text = A, btn_enabled = False\<rparr>,
                     \<lparr>btn_text = B, btn_enabled = False\<rparr>, \<lparr>btn_text = B, btn_enabled = False\<rparr>],
          flipped = [], matched = [0, 1, 2, 3], pending = 0, win_labels = 1\<rparr>"
  by (simp add: build_quiz_4 flip_card_def show_win_message_def Let_def)

text \<open>
  C4 (as the claim states it) fails: after \<open>reveal(0)\<close> and \<open>reveal(1)\<close> on \<open>[A, A, B, B]\<close>
  no win message has been shown.
\<close>

theorem flip_card_pair_no_win_counterexample:
  "map_sum id win_labels (reveals [0, 1] (build_quiz [''A'', ''A'', ''B'', ''B''])) = Inr 0"
  by (simp add: build_quiz_4 flip_card_def show_win_message_def Let_def)

text \<open>
  C1. On \<open>[A, A, B, B]\<close>, \<open>reveal(0)\<close> and \<open>reveal(2)\<close> leave two different cards face up
  with one \<open>flip_back\<close> scheduled. A \<open>reveal(3)\<close> before the timer runs is accepted: card 3
  is turned face up and the flipped list holds three indices.
\<close>

theorem flip_card_third_card_accepted:
  "reveals [0, 2] (build_quiz [''A'', ''A'', ''B'', ''B'']) =
     Inr \<lparr>game_words = [''A'', ''A'', ''B'', ''B''],
          buttons = [\<lparr>btn_text = ''A'', btn_enabled = False\<rparr>, face_down,
                     \<lparr>btn_text = ''B'', btn_enabled = False\<rparr>, face_down],
          flipped = [0, 2], matched = [], pending = 1, win_labels = 0\<rparr>
   \<and> reveals [0, 2, 3] (build_quiz [''A'', ''A'', ''B'', ''B'']) =
     Inr \<lparr>game_words = [''A'', ''A'', ''B'', ''B''],
          buttons = [\<lparr>btn_text = ''A'', btn_enabled = False\<rparr>, face_down,
                     \<lparr>btn_text = ''B'', btn_enabled = False\<rparr>, \<lparr>btn_text = ''B'', btn_enabled = False\<rparr>],
          flipped = [0, 2, 3], matched = [], pending = 1, win_labels = 0\<rparr>"
  by (simp add: build_quiz_4 flip_card_def show_win_message_def Let_def)

text \<open>
  When the timer then runs \<open>flip_back\<close>, all three cards are turned face down again,
  the two \<open>B\<close> cards among them, unmatched.
\<close>

lemma third_card_flipped_back:
  "map_sum id timer_fires (reveals [0, 2, 3] (build_quiz [''A'', ''A'', ''B'', ''B''])) =
     Inr \<lparr>game_words = [''A'', ''A'', ''B'', ''B''],
          buttons = [face_down, face_down, face_down, face_down],
          flipped = [], matched = [], pending = 0, win_labels = 0\<rparr>"
  by (simp add: build_quiz_4 flip_card_def show_win_message_def timer_fires_def flip_back_def Let_def)

section \<open>Properties of the image loader\<close>

lemma load_result_cached:
  "load ev p ld = (Some ph, ld1) \<Longrightarrow> cache ld1 (abspath ev p) = Some ph"
  by (auto simp: load_def Let_def split: option.splits sum.splits prod.splits)




lemma demo_first_load:
  "load (demo_env (Inr (1440, 960))) ''assets/images/a.png'' (ImageLoader 720 480) =
     (Some \<lparr>img_id = 0, img_w = 720, img_h = 480\<rparr>,
      \<lparr>cache = [''/app/assets/images/a.png'' \<mapsto> \<lparr>img_id = 0, img_w = 720, img_h = 480\<rparr>],
       max_w = 720, max_h = 480, next_img = 1,
       decoded = [''/app/assets/images/a.png''], printed = []\<rparr>)"
  by (simp add: load_def demo_env_def ImageLoader_def decode_def load_with_tk_def Let_def)

text \<open>
  C6. Two calls of \<open>load\<close> whose paths have the same \<open>os.path.abspath\<close> (a relative and
  an absolute name of one file, for instance) use one cache key: when the first call
  returned an image, the second returns the very same image object and leaves the loader
  as it was, so no decoder runs and nothing is added to the cache.
\<close>

theorem load_twice_same_handle:
  assumes "abspath ev' q = abspath ev p" and "load ev p ld = (Some ph, ld1)"
  shows "load ev' q ld1 = (Some ph, ld1)"
  using load_result_cached[OF assms(2)] assms(1) by (simp add: load_def)

theorem load_twice_same_handle_witness:
  "load (demo_env (Inr (1440, 960))) ''/app/assets/images/a.png''
     \<lparr>cache = [''/app/assets/images/a.png'' \<mapsto> \<lparr>img_id = 0, img_w = 720, img_h = 480\<rparr>],
      max_w = 720, max_h = 480, next_img = 1,
      decoded = [''/app/assets/images/a.png''], printed = []\<rparr> =
   (Some \<lparr>img_id = 0, img_w = 720, img_h = 480\<rparr>,
     \<lparr>cache = [''/app/assets/images/a.png'' \<mapsto> \<lparr>img_id = 0, img_w = 720, img_h = 480\<rparr>],
      max_w = 720, max_h = 480, next_img = 1,
      decoded = [''/app/assets/images/a.png''], printed = []\<rparr>)"
proof -
  have same: "abspath (demo_env (Inr (1440, 960))) ''/app/assets/images/a.png'' =
      abspath (demo_env (Inr (1440, 960))) ''assets/images/a.png''"
    by (simp add: demo_env_def)
  show ?thesis
    by (rule load_twice_same_handle[OF same demo_first_load])
qed



section \<open>Properties of the image listing\<close>

lemma lower_char_eq_iff:
  assumes "(of_char c :: nat) < 65"
  shows "lower_char x = c \<longleftrightarrow> x = c"
proof (cases "65 \<le> (of_char x :: nat) \<and> (of_char x :: nat) \<le> 90")
  case True
  then have "(of_char (lower_char x) :: nat) = of_char x + 32"
    by (simp add: lower_char_def Let_def)
  with True assms show ?thesis by auto
next
  case False
  then show ?thesis by (auto simp: lower_char_def Let_def)
qed

lemma lower_char_dot [simp]: "lower_char x = CHR ''.'' \<longleftrightarrow> x = CHR ''.''"
  by (rule lower_char_eq_iff) simp

lemma lower_char_slash [simp]: "lower_char x = CHR ''/'' \<longleftrightarrow> x = CHR ''/''"
  by (rule lower_char_eq_iff) simp

lemma rfind_lower:
  assumes "\<And>x. lower_char x = c \<longleftrightarrow> x = c"
  shows "rfind (lower p) c = rfind p c"
proof -
  have "filter (\<lambda>i. lower p ! i = c) (rev [0..<length p]) = filter (\<lambda>i. p ! i = c) (rev [0..<length p])"
    by (rule filter_cong) (auto simp: lower_def assms)
  then show ?thesis by (simp add: rfind_def lower_def)
qed

lemma rfind_bounds: "- 1 \<le> rfind p c \<and> rfind p c < int (length p)"
proof (cases "filter (\<lambda>i. p ! i = c) (rev [0..<length p])")
  case Nil
  then show ?thesis by (simp add: rfind_def)
next
  case (Cons i js)
  then have "i \<in> set (filter (\<lambda>i. p ! i = c) (rev [0..<length p]))" by simp
  then have "i < length p" by simp
  with Cons show ?thesis by (simp add: rfind_def)
qed

lemma skip_dots_lower:
  "0 \<le> i \<Longrightarrow> j \<le> int (length p) \<Longrightarrow> skip_dots (lower p) i j = skip_dots p i j"
proof (induction p i j rule: skip_dots.induct)
  case (1 p i j)
  show ?case
  proof (cases "i < j")
    case True
    with 1 have "nat i < length p" by simp
    then have c: "lower p ! nat i = lower_char (p ! nat i)" by (simp add: lower_def)
    show ?thesis
    proof (cases "p ! nat i = CHR ''.''")
      case dot: True
      have "skip_dots (lower p) (i + 1) j = skip_dots p (i + 1) j"
        using 1 True dot by simp
      then show ?thesis
        using True dot c by (subst skip_dots.simps, subst (2) skip_dots.simps) simp
    next
      case False
      then show ?thesis
        using True c by (subst skip_dots.simps, subst (2) skip_dots.simps) simp
    qed
  next
    case False
    then show ?thesis by (subst skip_dots.simps, subst (2) skip_dots.simps) simp
  qed
qed

lemma splitext_lower: "snd (splitext (lower p)) = lower (snd (splitext p))"
proof -
  have b: "- 1 \<le> rfind p CHR ''/''" "rfind p CHR ''.'' < int (length p)"
    using rfind_bounds by auto
  have s: "skip_dots (lower p) (rfind p CHR ''/'' + 1) (rfind p CHR ''.'') =
      skip_dots p (rfind p CHR ''/'' + 1) (rfind p CHR ''.'')"
    using b by (intro skip_dots_lower) auto
  show ?thesis
    by (simp add: splitext_def Let_def rfind_lower s) (simp add: lower_def drop_map)
qed

text \<open>
  C8. \<open>list_images\<close> returns the empty list when the images directory does not exist.
  Otherwise the result is sorted, and it holds exactly the joined paths of the listed names
  whose extension, taken from the lower-cased name, is in the list of the active backend:
  \<open>.png\<close> and \<open>.gif\<close> without Pillow, and \<open>.jpg\<close> and \<open>.jpeg\<close> as well with it.
\<close>

theorem list_images_spec:
  "list_images pil d False names = []
   \<and> sorted (list_images pil d True names)
   \<and> set (list_images pil d True names) =
       {path_join d f | f. f \<in> set names \<and> snd (splitext (lower f)) \<in> set (exts pil)}
   \<and> set (exts False) = {''.png'', ''.gif''}
   \<and> set (exts True) = {''.png'', ''.gif'', ''.jpg'', ''.jpeg''}"
  by (auto simp: list_images_def exts_def)

text \<open>
  C10. The extension test ignores letter case: a listed name whose extension, once
  lower-cased, is in the list of the active backend is part of the result.
\<close>

theorem list_images_case_insensitive:
  assumes "f \<in> set names" and "lower (snd (splitext f)) \<in> set (exts pil)"
  shows "path_join d f \<in> set (list_images pil d True names)"
  using assms by (simp add: list_images_def splitext_lower)

theorem list_images_case_insensitive_witness:
  "path_join ''/app/assets/images'' ''Photo.PNG''
     \<in> set (list_images False ''/app/assets/images'' True [''notes.txt'', ''Photo.PNG''])"
proof -
  have ext: "lower (snd (splitext ''Photo.PNG'')) \<in> set (exts False)"
    by code_simp
  show ?thesis
    by (rule list_images_case_insensitive[OF _ ext]) simp
qed


section \<open>Properties of the drawing surface\<close>

lemma find_map_update:
  assumes "\<And>it. item_id (f it) = item_id it"
  shows "find (\<lambda>it. item_id it = j) (map (\<lambda>it. if item_id it = i then f it else it) xs) =
         map_option (\<lambda>it. if j = i then f it else it) (find (\<lambda>it. item_id it = j) xs)"
  by (induction xs) (auto simp: assms)

lemma canvas_item_move:
  "canvas_item (canvas_move c i dx dy) j =
     map_option (\<lambda>it. if j = i then it\<lparr>coords := shift dx dy (coords it)\<rparr> else it) (canvas_item c j)"
  unfolding canvas_item_def canvas_move_def
  using find_map_update[of "\<lambda>it. it\<lparr>coords := shift dx dy (coords it)\<rparr>" j i "items c"]
  by simp

lemma canvas_coords_move:
  "canvas_coords (canvas_move c i dx dy) j =
     (if j = i then shift dx dy (canvas_coords c j) else canvas_coords c j)"
  by (cases "canvas_item c j") (auto simp: canvas_coords_def canvas_item_move)

lemma length_shift [simp]: "length (shift dx dy cs) = length cs"
  by (induction dx dy cs rule: shift.induct) simp_all

lemma two_coords: "2 \<le> length cs \<Longrightarrow> \<exists>x y rest. cs = x # y # rest"
  by (cases cs; cases "tl cs") auto

lemma shift_nth1: "2 \<le> length cs \<Longrightarrow> shift dx dy cs ! 1 = cs ! 1 + dy"
  using two_coords[of cs] by auto

lemma four_coords: "length cs = 4 \<Longrightarrow> \<exists>x1 y1 x2 y2. cs = [x1, y1, x2, y2]"
  by (cases cs; cases "tl cs"; cases "tl (tl cs)"; cases "tl (tl (tl cs))") auto

section \<open>Properties of the beating heart's drawing\<close>

lemma draw_lines_keeps_others:
  "filter (\<lambda>it. ''heart'' \<notin> set (tags it))
     (items (foldl (\<lambda>c i. snd (create_item Line (g i) col [''heart''] c)) c ns)) =
   filter (\<lambda>it. ''heart'' \<notin> set (tags it)) (items c)"
  by (induction ns arbitrary: c) (simp_all add: create_item_def)

text \<open>
  C9. A beat deletes the items tagged \<open>heart\<close> and adds items tagged \<open>heart\<close>, nothing
  else: the items of the canvas that do not carry the tag \<open>heart\<close> (the confetti, tagged
  \<open>confetti\<close>, among them) are the same before and after, in the same order and with the
  same coordinates.
\<close>

theorem beat_keeps_other_items:
  "filter (\<lambda>it. ''heart'' \<notin> set (tags it)) (items (home_canvas (beat sg a))) =
   filter (\<lambda>it. ''heart'' \<notin> set (tags it)) (items (home_canvas a))"
  by (simp add: beat_def Let_def draw_lines_def draw_lines_keeps_others canvas_delete_def)

section \<open>Properties of the balloons\<close>

lemma float_balloon_result:
  assumes "b \<noteq> s" and "2 \<le> length (canvas_coords c b)"
  shows "\<exists>c'. float_balloon (b, s) c = Inr c' \<and>
     (\<forall>j. canvas_coords c' j =
        (if j = b \<or> j = s then
           (if canvas_coords c b ! 1 - 1 < - 60
            then shift 0 500 (shift 0 (- 1) (canvas_coords c j))
            else shift 0 (- 1) (canvas_coords c j))
         else canvas_coords c j))"
proof -
  define c1 where "c1 = canvas_move (canvas_move c b 0 (- 1)) s 0 (- 1)"
  have cb: "canvas_coords c1 b = shift 0 (- 1) (canvas_coords c b)"
    using assms(1) by (simp add: c1_def canvas_coords_move)
  obtain x y rest where xy: "canvas_coords c1 b = x # y # rest"
    using assms(2) cb two_coords[of "canvas_coords c1 b"] by auto
  have y: "y = canvas_coords c b ! 1 - 1"
  proof -
    have "y = canvas_coords c1 b ! 1" by (simp add: xy)
    also have "\<dots> = shift 0 (- 1) (canvas_coords c b) ! 1" by (simp only: cb)
    also have "\<dots> = canvas_coords c b ! 1 - 1"
      using shift_nth1[OF assms(2), of 0 "- 1"] by simp
    finally show ?thesis .
  qed
  show ?thesis
    using assms(1) xy y
    by (auto simp: float_balloon_def c1_def[symmetric] Let_def canvas_coords_move)
       (auto simp: c1_def canvas_coords_move)
qed

lemma new_two_balloons:
  "new_balloons 0 [''red'', ''blue''] empty_canvas = ([(1, 2), (3, 4)], two_balloons 400)"
  by (simp add: empty_canvas_def create_item_def two_balloons_def)

lemma two_balloons_coords:
  "canvas_coords (two_balloons y) 1 = [30, y, 70, y + 50]"
  "canvas_coords (two_balloons y) 2 = [50, y + 50, 50, y + 70]"
  "canvas_coords (two_balloons y) 3 = [70, y + 60, 110, y + 110]"
  "canvas_coords (two_balloons y) 4 = [90, y + 110, 90, y + 130]"
  by (simp_all add: two_balloons_def canvas_coords_def canvas_item_def)

lemma float_two_balloons:
  "- 59 \<le> y \<Longrightarrow> float_up [(1, 2), (3, 4)] (two_balloons y) = Inr (two_balloons (y - 1))"
  by (simp add: float_balloon_def two_balloons_def canvas_move_def canvas_coords_def
      canvas_item_def Let_def)

lemma float_loop_two_balloons:
  "real n \<le> y + 59 \<Longrightarrow>
   float_loop n [(1, 2), (3, 4)] (two_balloons y) = Inr (two_balloons (y - real n))"
proof (induction n arbitrary: y)
  case 0
  then show ?case by simp
next
  case (Suc n)
  have a: "float_up [(1, 2), (3, 4)] (two_balloons y) = Inr (two_balloons (y - 1))"
    using Suc.prems by (intro float_two_balloons) simp
  have b: "float_loop n [(1, 2), (3, 4)] (two_balloons (y - 1)) = Inr (two_balloons (y - 1 - real n))"
    using Suc.prems by (intro Suc.IH) simp
  have e: "y - 1 - real n = y - real (Suc n)"
    by simp
  have "float_loop (Suc n) [(1, 2), (3, 4)] (two_balloons y) =
      float_loop n [(1, 2), (3, 4)] (two_balloons (y - 1))"
    by (simp only: float_loop.simps a sum.case)
  then show ?case
    by (simp only: b e)
qed

text \<open>
  C5 (as the code has it). When the balloons' ids are distinct and every oval has its
  coordinates, \<open>float_up\<close> succeeds and moves every balloon's oval and line by \<open>(0, -1)\<close>;
  a balloon whose oval's top edge is then above \<open>-60\<close> is moved down by \<open>500\<close> from there,
  oval and line alike, and no other balloon is. Items that are not balloons stay where
  they are.
\<close>

theorem float_up_effect:
  assumes "distinct (balloon_ids bs)"
    and "\<forall>(b, s) \<in> set bs. 2 \<le> length (canvas_coords c b)"
  shows "\<exists>c'. float_up bs c = Inr c' \<and>
     (\<forall>(b, s) \<in> set bs.
        canvas_coords c' b =
          (if canvas_coords c b ! 1 - 1 < - 60
           then shift 0 500 (shift 0 (- 1) (canvas_coords c b))
           else shift 0 (- 1) (canvas_coords c b)) \<and>
        canvas_coords c' s =
          (if canvas_coords c b ! 1 - 1 < - 60
           then shift 0 500 (shift 0 (- 1) (canvas_coords c s))
           else shift 0 (- 1) (canvas_coords c s))) \<and>
     (\<forall>j. j \<notin> set (balloon_ids bs) \<longrightarrow> canvas_coords c' j = canvas_coords c j)"
  using assms
proof (induction bs arbitrary: c)
  case Nil
  then show ?case by (simp add: balloon_ids_def)
next
  case (Cons p bs)
  obtain b s where p: "p = (b, s)" by (cases p)
  have ne: "b \<noteq> s" and nb: "b \<notin> set (balloon_ids bs)" and ns: "s \<notin> set (balloon_ids bs)"
    and d: "distinct (balloon_ids bs)"
    using Cons.prems(1) by (auto simp: p balloon_ids_def)
  have len: "2 \<le> length (canvas_coords c b)"
    using Cons.prems(2) by (simp add: p)
  obtain c1 where c1: "float_balloon (b, s) c = Inr c1"
    and co: "\<And>j. canvas_coords c1 j =
        (if j = b \<or> j = s then
           (if canvas_coords c b ! 1 - 1 < - 60
            then shift 0 500 (shift 0 (- 1) (canvas_coords c j))
            else shift 0 (- 1) (canvas_coords c j))
         else canvas_coords c j)"
    using float_balloon_result[OF ne len] by blast
  have mem: "\<And>b' s'. (b', s') \<in> set bs \<Longrightarrow> b' \<in> set (balloon_ids bs) \<and> s' \<in> set (balloon_ids bs)"
    by (auto simp: balloon_ids_def)
  have same: "\<And>b' s'. (b', s') \<in> set bs \<Longrightarrow>
      canvas_coords c1 b' = canvas_coords c b' \<and> canvas_coords c1 s' = canvas_coords c s'"
    using mem nb ns co by metis
  have len1: "\<forall>(b', s') \<in> set bs. 2 \<le> length (canvas_coords c1 b')"
    using Cons.prems(2) same by auto
  obtain c' where f: "float_up bs c1 = Inr c'"
    and r: "\<forall>(b', s') \<in> set bs.
        canvas_coords c' b' =
          (if canvas_coords c1 b' ! 1 - 1 < - 60
           then shift 0 500 (shift 0 (- 1) (canvas_coords c1 b'))
           else shift 0 (- 1) (canvas_coords c1 b')) \<and>
        canvas_coords c' s' =
          (if canvas_coords c1 b' ! 1 - 1 < - 60
           then shift 0 500 (shift 0 (- 1) (canvas_coords c1 s'))
           else shift 0 (- 1) (canvas_coords c1 s'))"
    and fr: "\<forall>j. j \<notin> set (balloon_ids bs) \<longrightarrow> canvas_coords c' j = canvas_coords c1 j"
    using Cons.IH[OF d len1] by blast
  have whole: "float_up (p # bs) c = Inr c'"
    by (simp add: p c1 f)
  have hd: "canvas_coords c' b = canvas_coords c1 b" "canvas_coords c' s = canvas_coords c1 s"
    using fr nb ns by auto
  have tl: "\<forall>(b', s') \<in> set bs.
        canvas_coords c' b' =
          (if canvas_coords c b' ! 1 - 1 < - 60
           then shift 0 500 (shift 0 (- 1) (canvas_coords c b'))
           else shift 0 (- 1) (canvas_coords c b')) \<and>
        canvas_coords c' s' =
          (if canvas_coords c b' ! 1 - 1 < - 60
           then shift 0 500 (shift 0 (- 1) (canvas_coords c s'))
           else shift 0 (- 1) (canvas_coords c s'))"
    using r same by fastforce
  have frame: "\<forall>j. j \<notin> set (balloon_ids (p # bs)) \<longrightarrow> canvas_coords c' j = canvas_coords c j"
    using fr co by (auto simp: p balloon_ids_def)
  show ?case
    using whole hd co tl frame ne by (auto simp: p)
qed

theorem float_up_effect_witness:
  "\<exists>c'. float_up [(1, 2), (3, 4)] (two_balloons (- 60)) = Inr c'
     \<and> canvas_coords c' 1 = [30, 439, 70, 489] \<and> canvas_coords c' 2 = [50, 489, 50, 509]
     \<and> canvas_coords c' 3 = [70, - 1, 110, 49] \<and> canvas_coords c' 4 = [90, 49, 90, 69]"
proof -
  have d: "distinct (balloon_ids [(1, 2), (3, 4 :: nat)])"
    by (simp add: balloon_ids_def)
  have l: "\<forall>(b, s) \<in> set [(1, 2), (3, 4 :: nat)].
      2 \<le> length (canvas_coords (two_balloons (- 60)) b)"
    by (simp add: two_balloons_coords del: One_nat_def)
  obtain c' where f: "float_up [(1, 2), (3, 4)] (two_balloons (- 60)) = Inr c'"
    and r: "\<forall>(b, s) \<in> set [(1, 2), (3, 4 :: nat)].
        canvas_coords c' b =
          (if canvas_coords (two_balloons (- 60)) b ! 1 - 1 < - 60
           then shift 0 500 (shift 0 (- 1) (canvas_coords (two_balloons (- 60)) b))
           else shift 0 (- 1) (canvas_coords (two_balloons (- 60)) b)) \<and>
        canvas_coords c' s =
          (if canvas_coords (two_balloons (- 60)) b ! 1 - 1 < - 60
           then shift 0 500 (shift 0 (- 1) (canvas_coords (two_balloons (- 60)) s))
           else shift 0 (- 1) (canvas_coords (two_balloons (- 60)) s))"
    using float_up_effect[OF d l] by blast
  have "canvas_coords c' 1 = [30, 439, 70, 489] \<and> canvas_coords c' 2 = [50, 489, 50, 509]
     \<and> canvas_coords c' 3 = [70, - 1, 110, 49] \<and> canvas_coords c' 4 = [90, 49, 90, 69]"
    using r by (simp add: two_balloons_coords del: One_nat_def)
  with f show ?thesis
    by blast
qed

text \<open>
  C5 (as the claim states it) fails. After 401 runs the first of two balloons has its top
  edge one unit above the top of the canvas; the next run moves it up by one more unit
  and does not bring it back down.
\<close>

theorem float_up_no_wrap_counterexample:
  "float_loop 401 [(1, 2), (3, 4)] (two_balloons 400) = Inr (two_balloons (- 1))
   \<and> canvas_coords (two_balloons (- 1)) 1 = [30, - 1, 70, 49]
   \<and> float_up [(1, 2), (3, 4)] (two_balloons (- 1)) = Inr (two_balloons (- 2))
   \<and> canvas_coords (two_balloons (- 2)) 1 = [30, - 2, 70, 48]"
proof -
  have "float_loop 401 [(1, 2), (3, 4)] (two_balloons 400) = Inr (two_balloons (- 1))"
    using float_loop_two_balloons[of 401 400] by simp
  moreover have "float_up [(1, 2), (3, 4)] (two_balloons (- 1)) = Inr (two_balloons (- 2))"
    using float_two_balloons[of "- 1"] by simp
  moreover have "canvas_coords (two_balloons (- 1)) 1 = [30, - 1, 70, 49]"
    "canvas_coords (two_balloons (- 2)) 1 = [30, - 2, 70, 48]"
    by (simp_all add: two_balloons_coords del: One_nat_def)
  ultimately show ?thesis
    by (intro conjI)
qed

section \<open>Properties of the rounding of floats\<close>

lemma powi_exponent_unique:
  fixes a :: rat
  assumes "2 powi e \<le> a" "a < 2 powi (e + 1)" "2 powi e' \<le> a" "a < 2 powi (e' + 1)"
  shows "e = e'"
proof (rule ccontr)
  assume "e \<noteq> e'"
  then consider "e + 1 \<le> e'" | "e' + 1 \<le> e" by linarith
  then show False
  proof cases
    case 1
    then have "(2::rat) powi (e + 1) \<le> 2 powi e'"
      by (intro power_int_increasing) simp_all
    with assms show False by linarith
  next
    case 2
    then have "(2::rat) powi (e' + 1) \<le> 2 powi e"
      by (intro power_int_increasing) simp_all
    with assms show False by linarith
  qed
qed

lemma fl_exp_bounds:
  assumes "x \<noteq> 0"
  shows "2 powi fl_exp x \<le> \<bar>x\<bar> \<and> \<bar>x\<bar> < 2 powi (fl_exp x + 1)"
proof -
  obtain p q where pq: "quotient_of \<bar>x\<bar> = (p, q)" by (cases "quotient_of \<bar>x\<bar>")
  have q: "0 < q" using quotient_of_denom_pos[OF pq] .
  have x: "\<bar>x\<bar> = of_int p / of_int q" using quotient_of_div[OF pq] .
  have "0 < \<bar>x\<bar>" using assms by simp
  then have p: "0 < p" using q x by (simp add: zero_less_divide_iff)
  define d where "d = bitlen p - bitlen q"
  have bp: "2 ^ nat (bitlen p - 1) \<le> p" "p < 2 ^ nat (bitlen p)"
    using bitlen_bounds[OF p] by simp_all
  have bq: "2 ^ nat (bitlen q - 1) \<le> q" "q < 2 ^ nat (bitlen q)"
    using bitlen_bounds[OF q] by simp_all
  have lp: "1 \<le> bitlen p" using p by (simp add: bitlen_alt_def)
  have lq: "1 \<le> bitlen q" using q by (simp add: bitlen_alt_def)
  have rp: "(2::rat) powi (bitlen p - 1) \<le> of_int p" "of_int p < (2::rat) powi bitlen p"
  proof -
    have "(of_int (2 ^ nat (bitlen p - 1)) :: rat) \<le> of_int p"
      using bp(1) by (simp only: of_int_le_iff)
    then show "(2::rat) powi (bitlen p - 1) \<le> of_int p"
      using lp by (simp add: power_int_nonneg_exp)
    have "(of_int p :: rat) < of_int (2 ^ nat (bitlen p))"
      using bp(2) by (simp only: of_int_less_iff)
    then show "of_int p < (2::rat) powi bitlen p"
      using lp by (simp add: power_int_nonneg_exp)
  qed
  have rq: "(2::rat) powi (bitlen q - 1) \<le> of_int q" "of_int q < (2::rat) powi bitlen q"
  proof -
    have "(of_int (2 ^ nat (bitlen q - 1)) :: rat) \<le> of_int q"
      using bq(1) by (simp only: of_int_le_iff)
    then show "(2::rat) powi (bitlen q - 1) \<le> of_int q"
      using lq by (simp add: power_int_nonneg_exp)
    have "(of_int q :: rat) < of_int (2 ^ nat (bitlen q))"
      using bq(2) by (simp only: of_int_less_iff)
    then show "of_int q < (2::rat) powi bitlen q"
      using lq by (simp add: power_int_nonneg_exp)
  qed
  have qpos: "(0::rat) < of_int q" using q by simp
  have up: "\<bar>x\<bar> < 2 powi (d + 1)"
  proof -
    have "of_int p * (2::rat) powi (bitlen q - 1) < 2 powi bitlen p * of_int q"
      using rp(2) rq(1) p by (intro mult_less_le_imp_less) simp_all
    then have "of_int p / of_int q < (2::rat) powi bitlen p / 2 powi (bitlen q - 1)"
      using qpos by (simp add: field_simps)
    also have "\<dots> = 2 powi (bitlen p - (bitlen q - 1))"
      by (rule power_int_diff[symmetric]) simp
    also have "bitlen p - (bitlen q - 1) = d + 1"
      by (simp add: d_def)
    finally show ?thesis by (simp add: x)
  qed
  have lo: "2 powi (d - 1) \<le> \<bar>x\<bar>"
  proof -
    have "(2::rat) powi (bitlen p - 1) * of_int q \<le> of_int p * 2 powi bitlen q"
      using rp(1) rq(2) p q by (intro mult_mono) simp_all
    then have "(2::rat) powi (bitlen p - 1) / 2 powi bitlen q \<le> of_int p / of_int q"
      using qpos by (simp add: field_simps)
    moreover have "(2::rat) powi (bitlen p - 1) / 2 powi bitlen q = 2 powi (bitlen p - 1 - bitlen q)"
      by (rule power_int_diff[symmetric]) simp
    moreover have "bitlen p - 1 - bitlen q = d - 1"
      by (simp add: d_def)
    ultimately show ?thesis by (simp add: x)
  qed
  have e: "fl_exp x = (if 2 powi d \<le> \<bar>x\<bar> then d else d - 1)"
    by (simp add: fl_exp_def pq d_def Let_def)
  show ?thesis
  proof (cases "2 powi d \<le> \<bar>x\<bar>")
    case True
    then show ?thesis using up by (simp add: e)
  next
    case False
    then show ?thesis using lo by (simp add: e)
  qed
qed

lemma fl_exp_eq:
  assumes "2 powi e \<le> \<bar>x\<bar>" "\<bar>x\<bar> < 2 powi (e + 1)"
  shows "fl_exp x = e"
proof -
  have pos: "0 < (2::rat) powi e" by simp
  have "x \<noteq> 0"
  proof
    assume "x = 0"
    with assms(1) have "(2::rat) powi e \<le> 0" by simp
    with pos show False by linarith
  qed
  from fl_exp_bounds[OF this] assms show ?thesis
    using powi_exponent_unique by blast
qed

lemma fl_binade:
  assumes "2 powi e \<le> \<bar>x\<bar>" "\<bar>x\<bar> < 2 powi (e + 1)"
  shows "fl x = of_int (round_even (x / 2 powi (e - 52))) * 2 powi (e - 52)"
proof -
  have pos: "0 < (2::rat) powi e" by simp
  have "x \<noteq> 0"
  proof
    assume "x = 0"
    with assms(1) have "(2::rat) powi e \<le> 0" by simp
    with pos show False by linarith
  qed
  then show ?thesis by (simp add: fl_def fl_exp_eq[OF assms] Let_def)
qed

lemma fl_1_2: "1 \<le> x \<Longrightarrow> x < 2 \<Longrightarrow> fl x = of_int (round_even (x * 2 ^ 52)) / 2 ^ 52"
  using fl_binade[of 0 x] by (simp add: power_int_minus field_simps)

lemma fl_half_1: "1 / 2 \<le> x \<Longrightarrow> x < 1 \<Longrightarrow> fl x = of_int (round_even (x * 2 ^ 53)) / 2 ^ 53"
  using fl_binade[of "- 1" x] by (simp add: power_int_minus field_simps)

lemma floor_numeral_div: "\<lfloor>numeral a / numeral b :: rat\<rfloor> = numeral a div numeral b"
  using floor_divide_of_int_eq[of "numeral a" "numeral b", where ?'a = rat] by simp

lemma round_even_int: "round_even (of_int n) = n"
  by (simp add: round_even_def)

lemma round_even_numeral_int [simp]: "round_even (numeral a) = numeral a"
  using round_even_int[of "numeral a"] by simp

lemma round_even_div:
  assumes "0 < b"
  shows "round_even (of_int a / of_int b) =
     (let f = a div b; r = a mod b
      in if 2 * r < b then f else if b < 2 * r then f + 1 else if even f then f else f + 1)"
proof -
  define f where "f = a div b"
  define r where "r = a mod b"
  have B: "(0::rat) < of_int b" using assms by simp
  have fl: "\<lfloor>of_int a / of_int b :: rat\<rfloor> = f"
    by (simp add: floor_divide_of_int_eq f_def)
  have "a = f * b + r"
    unfolding f_def r_def by (simp only: div_mult_mod_eq)
  then have "(of_int a :: rat) = of_int f * of_int b + of_int r"
    by (simp only: of_int_add of_int_mult)
  then have frac: "(of_int a / of_int b :: rat) - of_int f = of_int r / of_int b"
    using B by (simp add: field_simps)
  have lt: "of_int r / (of_int b :: rat) < 1 / 2 \<longleftrightarrow> 2 * r < b"
  proof -
    have "of_int r / (of_int b :: rat) < 1 / 2 \<longleftrightarrow> (of_int (2 * r) :: rat) < of_int b"
      using B by (simp add: field_simps)
    also have "\<dots> \<longleftrightarrow> 2 * r < b"
      by (simp only: of_int_less_iff)
    finally show ?thesis .
  qed
  have gt: "1 / 2 < of_int r / (of_int b :: rat) \<longleftrightarrow> b < 2 * r"
  proof -
    have "1 / 2 < of_int r / (of_int b :: rat) \<longleftrightarrow> (of_int b :: rat) < of_int (2 * r)"
      using B by (simp add: field_simps)
    also have "\<dots> \<longleftrightarrow> b < 2 * r"
      by (simp only: of_int_less_iff)
    finally show ?thesis .
  qed
  show ?thesis
    unfolding round_even_def Let_def fl frac lt gt f_def[symmetric] r_def[symmetric] ..
qed

lemma round_even_numeral [simp]:
  "round_even (numeral a / numeral b) =
     (let f = numeral a div numeral b; r = numeral a mod numeral b :: int
      in if 2 * r < numeral b then f else if numeral b < 2 * r then f + 1
         else if even f then f else f + 1)"
  using round_even_div[of "numeral b" "numeral a"] by (simp only: of_int_numeral zero_less_numeral)

lemma fl_002: "fl (1 / 50) = 5764607523034235 / 288230376151711744"
  using fl_binade[of "- 6" "1 / 50"] by (simp add: power_int_minus Let_def)

lemma fl_108: "fl (27 / 25) = 607985949695017 / 562949953421312"
  by (simp add: fl_1_2 Let_def)

lemma fl_092: "fl (23 / 25) = 8286623314361713 / 9007199254740992"
  by (simp add: fl_half_1 Let_def)

lemma next_beat_steps:
    "next_beat (1, True) =
       (2296835809958953 / 2251799813685248, True)"
    "next_beat (2296835809958953 / 2251799813685248, True) =
       (1170935903116329 / 1125899906842624, True)"
    "next_beat (1170935903116329 / 1125899906842624, True) =
       (2386907802506363 / 2251799813685248, True)"
    "next_beat (2386907802506363 / 2251799813685248, True) =
       (607985949695017 / 562949953421312, True)"
    "next_beat (607985949695017 / 562949953421312, True) =
       (2476979795053773 / 2251799813685248, False)"
    "next_beat (2476979795053773 / 2251799813685248, False) =
       (607985949695017 / 562949953421312, False)"
    "next_beat (607985949695017 / 562949953421312, False) =
       (2386907802506363 / 2251799813685248, False)"
    "next_beat (2386907802506363 / 2251799813685248, False) =
       (1170935903116329 / 1125899906842624, False)"
    "next_beat (1170935903116329 / 1125899906842624, False) =
       (2296835809958953 / 2251799813685248, False)"
    "next_beat (2296835809958953 / 2251799813685248, False) =
       (1, False)"
    "next_beat (1, False) =
       (2206763817411543 / 2251799813685248, False)"
    "next_beat (2206763817411543 / 2251799813685248, False) =
       (1080863910568919 / 1125899906842624, False)"
    "next_beat (1080863910568919 / 1125899906842624, False) =
       (2116691824864133 / 2251799813685248, False)"
    "next_beat (2116691824864133 / 2251799813685248, False) =
       (517913957147607 / 562949953421312, True)"
    "next_beat (517913957147607 / 562949953421312, True) =
       (2116691824864133 / 2251799813685248, True)"
    "next_beat (2116691824864133 / 2251799813685248, True) =
       (1080863910568919 / 1125899906842624, True)"
    "next_beat (1080863910568919 / 1125899906842624, True) =
       (2206763817411543 / 2251799813685248, True)"
    "next_beat (2206763817411543 / 2251799813685248, True) =
       (1, True)"
  by (simp_all add: next_beat_def fadd_def fl_002 fl_108 fl_092 fl_1_2 fl_half_1 Let_def)

lemma next_beat_orbit: "map next_beat beat_orbit = rotate1 beat_orbit"
  by (simp add: beat_orbit_def next_beat_steps)

lemma funpow_rotate:
  assumes "map f xs = rotate1 xs" and "xs \<noteq> []"
  shows "(f ^^ n) (hd xs) = hd (rotate n xs)"
proof (induction n)
  case 0
  then show ?case by simp
next
  case (Suc n)
  have ne: "rotate n xs \<noteq> []" using assms(2) by simp
  have "(f ^^ Suc n) (hd xs) = f (hd (rotate n xs))"
    by (simp add: Suc.IH)
  also have "\<dots> = hd (map f (rotate n xs))"
    using ne by (simp add: hd_map)
  also have "map f (rotate n xs) = rotate n (map f xs)"
    by (simp add: rotate_map)
  also have "\<dots> = rotate (Suc n) xs"
    by (simp add: assms(1) rotate1_rotate_swap)
  finally show ?case .
qed

lemma beat_orbit_bounds:
  "\<forall>s \<in> set beat_orbit.
     517913957147607 / 562949953421312 \<le> fst s \<and> fst s \<le> 2476979795053773 / 2251799813685248"
  by (simp add: beat_orbit_def)

lemma fadd_108_002: "fadd (fl (108 / 100)) (fl (2 / 100)) = 2476979795053773 / 2251799813685248"
  by (simp add: fadd_def fl_002 fl_108 fl_1_2 Let_def)

text \<open>
  C2 (as the code has it). The arguments of the \<open>n\<close>-th call of \<open>beat\<close> after
  \<open>beat(1.0, True)\<close> are the entry \<open>n mod 18\<close> of \<open>beat_orbit\<close>: the scale goes up in steps of
  \<open>0.02\<close> until the sum exceeds \<open>1.08\<close>, down until it drops below \<open>0.92\<close>, and up again,
  for ever and with period 18. The value that passed the bound is the scale of the next
  call, so the scale that is drawn lies between \<open>0.9\<close> and the float \<open>1.08 + 0.02\<close>, not
  between \<open>0.92\<close> and \<open>1.08\<close>.
\<close>

theorem beat_scale_orbit:
  "(next_beat ^^ n) (1, True) = beat_orbit ! (n mod 18)
   \<and> 9 / 10 \<le> fst ((next_beat ^^ n) (1, True))
   \<and> fst ((next_beat ^^ n) (1, True)) \<le> fadd (fl (108 / 100)) (fl (2 / 100))
   \<and> (next_beat ^^ (n + 18)) (1, True) = (next_beat ^^ n) (1, True)"
proof -
  have len: "length beat_orbit = 18" and ne: "beat_orbit \<noteq> []" and h: "hd beat_orbit = (1, True)"
    by (simp_all add: beat_orbit_def)
  have at: "(next_beat ^^ k) (1, True) = beat_orbit ! (k mod 18)" for k
    using funpow_rotate[OF next_beat_orbit ne, of k] hd_rotate_conv_nth[OF ne, of k]
    by (simp add: h len)
  have "beat_orbit ! (n mod 18) \<in> set beat_orbit"
    by (rule nth_mem) (simp add: len)
  then have b: "517913957147607 / 562949953421312 \<le> fst (beat_orbit ! (n mod 18))"
    "fst (beat_orbit ! (n mod 18)) \<le> 2476979795053773 / 2251799813685248"
    using beat_orbit_bounds by blast+
  have lo: "9 / 10 \<le> fst (beat_orbit ! (n mod 18))"
    using b(1) by simp
  have hi: "fst (beat_orbit ! (n mod 18)) \<le> fadd (fl (108 / 100)) (fl (2 / 100))"
    using b(2) by (simp only: fadd_108_002)
  have per: "(next_beat ^^ (n + 18)) (1, True) = (next_beat ^^ n) (1, True)"
    by (simp add: at)
  show ?thesis
    using lo hi per by (simp only: at)
qed

text \<open>
  C2 (as the claim states it) fails: the sixth call draws with the scale \<open>1.1\<close>, above
  \<open>1.08\<close>, and the fifteenth with \<open>0.9199999999999999\<close>, below \<open>0.92\<close>.
\<close>

theorem beat_scale_overshoot_counterexample:
  "(next_beat ^^ 5) (1, True) = (2476979795053773 / 2251799813685248, False)
   \<and> fl (108 / 100) < fst ((next_beat ^^ 5) (1, True))
   \<and> (next_beat ^^ 14) (1, True) = (517913957147607 / 562949953421312, True)
   \<and> fst ((next_beat ^^ 14) (1, True)) < fl (92 / 100)"
  by (simp add: eval_nat_numeral next_beat_steps fl_108 fl_092)

text \<open>
  The loop never stops by itself: after \<open>draw_beating_heart\<close> has started it, every run of
  the timer leaves exactly one call of \<open>beat\<close> scheduled, with the next arguments.
\<close>

lemma beat_schedules:
  "animating a \<Longrightarrow>
   animating (beat sg a) \<and> scheduled (beat sg a) = scheduled a @ [next_beat sg]"
  by (simp add: beat_def Let_def)

lemma beat_loop:
  assumes "\<not> animating a" and "scheduled a = []"
  shows "animating ((beat_timer_fires ^^ n) (draw_beating_heart w h a))
       \<and> scheduled ((beat_timer_fires ^^ n) (draw_beating_heart w h a)) =
           [(next_beat ^^ Suc n) (1, True)]"
proof (induction n)
  case 0
  show ?case
    using assms by (simp add: draw_beating_heart_def beat_schedules)
next
  case (Suc n)
  define a' where "a' = (beat_timer_fires ^^ n) (draw_beating_heart w h a)"
  have an: "animating a'" and sc: "scheduled a' = [(next_beat ^^ Suc n) (1, True)]"
    using Suc.IH by (simp_all add: a'_def)
  have "beat_timer_fires a' = beat ((next_beat ^^ Suc n) (1, True)) (a'\<lparr>scheduled := []\<rparr>)"
    by (simp add: beat_timer_fires_def sc)
  moreover have "animating (a'\<lparr>scheduled := []\<rparr>)"
    using an by simp
  ultimately have "animating (beat_timer_fires a') \<and>
      scheduled (beat_timer_fires a') = [next_beat ((next_beat ^^ Suc n) (1, True))]"
    using beat_schedules[of "a'\<lparr>scheduled := []\<rparr>" "(next_beat ^^ Suc n) (1, True)"] by simp
  then show ?case
    by (simp add: a'_def)
qed


section \<open>Properties of the confetti\<close>

subsection \<open>Sums that are exact\<close>

lemma powi_less_imp_less:
  assumes "(2::rat) powi a < 2 powi b"
  shows "a < b"
proof (rule ccontr)
  assume "\<not> a < b"
  then have "b \<le> a" by simp
  then have "(2::rat) powi b \<le> 2 powi a"
    by (intro power_int_increasing) simp_all
  with assms show False by linarith
qed

lemma fl_exact:
  assumes m: "\<bar>m\<bar> < 2 ^ 53"
  shows "fl (of_int m * 2 powi j) = of_int m * 2 powi j"
proof (cases "m = 0")
  case True
  then show ?thesis by (simp add: fl_def)
next
  case False
  define x :: rat where "x = of_int m * 2 powi j"
  have x0: "x \<noteq> 0" using False by (simp add: x_def)
  define e where "e = fl_exp x"
  have lo: "2 powi e \<le> \<bar>x\<bar>"
    using fl_exp_bounds[OF x0] by (simp add: e_def)
  have "\<bar>rat_of_int m\<bar> < 2 ^ 53"
  proof -
    have "rat_of_int \<bar>m\<bar> < rat_of_int (2 ^ 53)"
      using m by (simp only: of_int_less_iff)
    then show ?thesis by simp
  qed
  then have "\<bar>x\<bar> < 2 ^ 53 * 2 powi j"
    by (simp add: x_def abs_mult)
  also have "(2::rat) ^ 53 * 2 powi j = 2 powi (53 + j)"
    by (simp add: power_int_add)
  finally have "(2::rat) powi e < 2 powi (53 + j)"
    using lo by linarith
  then have ej: "e < 53 + j"
    by (rule powi_less_imp_less)
  define d where "d = nat (j - (e - 52))"
  have d: "int d = j - (e - 52)"
    using ej by (simp add: d_def)
  have "(2::rat) powi j / 2 powi (e - 52) = 2 powi (j - (e - 52))"
    by (rule power_int_diff[symmetric]) simp
  also have "\<dots> = 2 ^ d"
    by (simp only: d[symmetric] power_int_of_nat)
  finally have q: "(2::rat) powi j / 2 powi (e - 52) = 2 ^ d" .
  have "x / 2 powi (e - 52) = of_int m * (2 powi j / 2 powi (e - 52))"
    by (simp add: x_def)
  also have "\<dots> = rat_of_int (m * 2 ^ d)"
    by (simp add: q)
  finally have "round_even (x / 2 powi (e - 52)) = m * 2 ^ d"
    by (simp only: round_even_int)
  then have "fl x = rat_of_int (m * 2 ^ d) * 2 powi (e - 52)"
    using x0 by (simp add: fl_def e_def Let_def)
  also have "\<dots> = of_int m * (2 ^ d * 2 powi (e - 52))"
    by simp
  also have "(2::rat) ^ d * 2 powi (e - 52) = 2 powi (int d + (e - 52))"
    by (simp add: power_int_add)
  also have "int d + (e - 52) = j"
    using d by simp
  finally show ?thesis by (simp add: x_def)
qed

lemma fl_int: "\<bar>n\<bar> < 2 ^ 53 \<Longrightarrow> fl (rat_of_int n) = rat_of_int n"
  using fl_exact[of n 0] by simp

lemma float_of_int_exact: "\<bar>n\<bar> < 2 ^ 53 \<Longrightarrow> float_of_int n = rat_of_int n"
  by (simp add: float_of_int_def fl_int)

lemma fl_half_int: "\<bar>n\<bar> < 2 ^ 53 \<Longrightarrow> fl (rat_of_int n / 2) = rat_of_int n / 2"
  using fl_exact[of n "- 1"] by (simp add: power_int_minus field_simps)

lemma fl_numeral [simp]: "numeral k < (2::int) ^ 53 \<Longrightarrow> fl (numeral k) = numeral k"
  using fl_int[of "numeral k"] by simp

lemma fl_neg_numeral [simp]: "numeral k < (2::int) ^ 53 \<Longrightarrow> fl (- numeral k) = - numeral k"
  using fl_int[of "- numeral k"] by simp

lemma fl_numeral_half [simp]:
  "numeral k < (2::int) ^ 53 \<Longrightarrow> fl (numeral k / 2) = numeral k / 2"
  using fl_half_int[of "numeral k"] by simp

lemma fl_neg_numeral_half [simp]:
  "numeral k < (2::int) ^ 53 \<Longrightarrow> fl (- (numeral k / 2)) = - (numeral k / 2)"
  using fl_half_int[of "- numeral k"] by simp

lemma fl_one [simp]: "fl 1 = 1"
  using fl_int[of 1] by simp

lemma fl_neg_one [simp]: "fl (- 1) = - 1"
  using fl_int[of "- 1"] by simp

lemma fl_one_half [simp]: "fl (1 / 2) = 1 / 2"
  using fl_half_int[of 1] by simp

lemma fadd_halves:
  "\<bar>a + b\<bar> < 2 ^ 53 \<Longrightarrow> fadd (rat_of_int a / 2) (rat_of_int b / 2) = rat_of_int (a + b) / 2"
proof -
  assume "\<bar>a + b\<bar> < 2 ^ 53"
  then have "fl (rat_of_int (a + b) / 2) = rat_of_int (a + b) / 2"
    by (rule fl_half_int)
  moreover have "rat_of_int a / 2 + rat_of_int b / 2 = rat_of_int (a + b) / 2"
    by simp
  ultimately show ?thesis by (simp only: fadd_def)
qed

lemma round_even_neg_numeral [simp]:
  "round_even (- (numeral a / numeral b)) =
     (let f = (- numeral a) div numeral b; r = (- numeral a) mod numeral b :: int
      in if 2 * r < numeral b then f else if numeral b < 2 * r then f + 1
         else if even f then f else f + 1)"
  using round_even_div[of "numeral b" "- numeral a"] by simp

lemma round_even_neg_numeral_int [simp]: "round_even (- numeral a) = - numeral a"
  using round_even_int[of "- numeral a"] by simp

subsection \<open>The canvas of the confetti\<close>

lemma ffind_map_update:
  assumes "\<And>it. fitem_id (f it) = fitem_id it"
  shows "find (\<lambda>it. fitem_id it = j) (map (\<lambda>it. if fitem_id it = i then f it else it) xs) =
         map_option (\<lambda>it. if j = i then f it else it) (find (\<lambda>it. fitem_id it = j) xs)"
  by (induction xs) (auto simp: assms)

lemma fcanvas_item_move:
  "fcanvas_item (fcanvas_move c i dx dy) j =
     map_option (\<lambda>it. if j = i then it\<lparr>fcoords := fshift dx dy (fcoords it)\<rparr> else it)
       (fcanvas_item c j)"
  unfolding fcanvas_item_def fcanvas_move_def
  using ffind_map_update[of "\<lambda>it. it\<lparr>fcoords := fshift dx dy (fcoords it)\<rparr>" j i "fitems c"]
  by simp

lemma fcanvas_coords_move:
  "fcanvas_coords (fcanvas_move c i dx dy) j =
     (if j = i then fshift dx dy (fcanvas_coords c j) else fcanvas_coords c j)"
  by (cases "fcanvas_item c j") (auto simp: fcanvas_coords_def fcanvas_item_move)

lemma appearance_move [simp]: "appearance (fcanvas_move c i dx dy) j = appearance c j"
  by (cases "fcanvas_item c j") (auto simp: appearance_def fcanvas_item_move)

lemma randint_range:
  "a \<le> b \<Longrightarrow> \<exists>r. randint a b raw = Inr r \<and> a \<le> r \<and> r \<le> b"
proof -
  assume ab: "a \<le> b"
  have "raw mod nat (b - a + 1) < nat (b - a + 1)"
    using ab by simp
  then have "int (raw mod nat (b - a + 1)) < int (nat (b - a + 1))"
    by (simp only: of_nat_less_iff)
  then have "int (raw mod nat (b - a + 1)) < b - a + 1"
    using ab by simp
  then show ?thesis using ab by (simp add: randint_def)
qed

lemma two_pieces_coords:
  "fcanvas_coords two_pieces 1 = [10, 100, 15, 105]"
  "fcanvas_coords two_pieces 2 = [200, 499, 203, 502]"
  by (simp_all add: two_pieces_def fcanvas_coords_def fcanvas_item_def)

subsection \<open>One step\<close>

lemma step_piece_result:
  assumes len: "length (fcanvas_coords c shape) = 4" and w: "0 \<le> w"
  shows "\<exists>c'. step_piece w h rng (shape, speed, drift) (c, k) =
         Inr (c', if leaves h c (shape, speed, drift) then Suc k else k) \<and>
     (\<forall>j. j \<noteq> shape \<longrightarrow> fcanvas_coords c' j = fcanvas_coords c j) \<and>
     (\<forall>j. appearance c' j = appearance c j) \<and>
     (\<forall>x1 y1 x2 y2. fcanvas_coords c shape = [x1, y1, x2, y2] \<longrightarrow>
        (if rat_of_int h < fadd y1 speed then
           \<exists>r. randint 0 w (rng k) = Inr r \<and> 0 \<le> r \<and> r \<le> w \<and>
             fcanvas_coords c' shape =
               [fadd (fadd x1 drift) (fsub (float_of_int r) (fadd x1 drift)),
                fadd (fadd y1 speed)
                  (fsub (float_of_int (- h)) (fsub (fadd y2 speed) (fadd y1 speed))),
                fadd (fadd x2 drift) (fsub (float_of_int r) (fadd x1 drift)),
                fadd (fadd y2 speed)
                  (fsub (float_of_int (- h)) (fsub (fadd y2 speed) (fadd y1 speed)))]
         else fcanvas_coords c' shape = [fadd x1 drift, fadd y1 speed, fadd x2 drift, fadd y2 speed]))"
proof -
  obtain x1 y1 x2 y2 where cs: "fcanvas_coords c shape = [x1, y1, x2, y2]"
    using four_coords[OF len] by blast
  define c1 where "c1 = fcanvas_move c shape drift speed"
  have c1s: "fcanvas_coords c1 shape = [fadd x1 drift, fadd y1 speed, fadd x2 drift, fadd y2 speed]"
    by (simp add: c1_def fcanvas_coords_move cs)
  have lv: "leaves h c (shape, speed, drift) \<longleftrightarrow> rat_of_int h < fadd y1 speed"
    by (simp add: leaves_def cs)
  show ?thesis
  proof (cases "rat_of_int h < fadd y1 speed")
    case False
    then have "step_piece w h rng (shape, speed, drift) (c, k) = Inr (c1, k)"
      by (simp add: step_piece_def c1_def[symmetric] c1s)
    moreover have "\<forall>j. j \<noteq> shape \<longrightarrow> fcanvas_coords c1 j = fcanvas_coords c j"
      by (simp add: c1_def fcanvas_coords_move)
    moreover have "\<forall>j. appearance c1 j = appearance c j"
      by (simp add: c1_def)
    ultimately show ?thesis
      using False cs c1s lv by simp
  next
    case True
    obtain r where r: "randint 0 w (rng k) = Inr r" "0 \<le> r" "r \<le> w"
      using randint_range[OF w] by blast
    define c2 where
      "c2 = fcanvas_move c1 shape (fsub (float_of_int r) (fadd x1 drift))
              (fsub (float_of_int (- h)) (fsub (fadd y2 speed) (fadd y1 speed)))"
    have st: "step_piece w h rng (shape, speed, drift) (c, k) = Inr (c2, Suc k)"
      using True by (simp add: step_piece_def c1_def[symmetric] c1s r c2_def Let_def)
    have "fcanvas_coords c2 shape =
        [fadd (fadd x1 drift) (fsub (float_of_int r) (fadd x1 drift)),
         fadd (fadd y1 speed)
           (fsub (float_of_int (- h)) (fsub (fadd y2 speed) (fadd y1 speed))),
         fadd (fadd x2 drift) (fsub (float_of_int r) (fadd x1 drift)),
         fadd (fadd y2 speed)
           (fsub (float_of_int (- h)) (fsub (fadd y2 speed) (fadd y1 speed)))]"
      by (simp add: c2_def fcanvas_coords_move c1s)
    moreover have "\<forall>j. j \<noteq> shape \<longrightarrow> fcanvas_coords c2 j = fcanvas_coords c j"
      by (simp add: c2_def c1_def fcanvas_coords_move)
    moreover have "\<forall>j. appearance c2 j = appearance c j"
      by (simp add: c2_def c1_def)
    ultimately show ?thesis
      using True cs st r lv by (intro exI[of _ c2]) auto
  qed
qed

lemma Confetti_demo:
  "valid_draw
     \<lparr>raw_x = 10, raw_y = 300, raw_r = 0, raw_color = 0, uni_speed = 7 / 2, uni_drift = 1 / 2\<rparr>
   \<and> Confetti empty_fcanvas 800 500
     [\<lparr>raw_x = 10, raw_y = 300, raw_r = 0, raw_color = 0, uni_speed = 7 / 2, uni_drift = 1 / 2\<rparr>] =
   Inr (demo_confetti, one_piece 10 (- 200))"
  by (simp add: Confetti_def new_piece_def randint_def COLORS_def fcreate_item_def float_of_int_def
      empty_fcanvas_def demo_confetti_def one_piece_def valid_draw_def Let_def)

lemma step_one_piece_fall:
  assumes "\<bar>a\<bar> < 2 ^ 52" and "\<bar>b\<bar> < 2 ^ 52" and "b + 7 \<le> 1000"
  shows "step demo_confetti rng (one_piece (rat_of_int a / 2) (rat_of_int b / 2), k) =
     Inr (one_piece (rat_of_int (a + 1) / 2) (rat_of_int (b + 7) / 2), k)"
proof -
  have x1: "fadd (rat_of_int a / 2) (1 / 2) = rat_of_int (a + 1) / 2"
    using fadd_halves[of a 1] assms(1) by simp
  have x2: "fadd (rat_of_int a / 2 + 3) (1 / 2) = rat_of_int (a + 1) / 2 + 3"
    using fadd_halves[of "a + 6" 1] assms(1) by (simp add: field_simps)
  have y1: "fadd (rat_of_int b / 2) (7 / 2) = rat_of_int (b + 7) / 2"
    using fadd_halves[of b 7] assms(2) by simp
  have y2: "fadd (rat_of_int b / 2 + 3) (7 / 2) = rat_of_int (b + 7) / 2 + 3"
    using fadd_halves[of "b + 6" 7] assms(2) by (simp add: field_simps)
  have stay: "\<not> 500 < rat_of_int (b + 7) / 2"
  proof -
    have "rat_of_int (b + 7) \<le> rat_of_int 1000"
      using assms(3) by (simp only: of_int_le_iff)
    then show ?thesis by simp
  qed
  show ?thesis
    using stay
    by (simp add: step_def demo_confetti_def step_piece_def one_piece_def fcanvas_move_def
        fcanvas_coords_def fcanvas_item_def Let_def x1 x2 y1 y2)
qed

lemma step_loop_one_piece:
  "\<bar>a\<bar> + int n < 2 ^ 52 \<Longrightarrow> \<bar>b\<bar> + 7 * int n < 2 ^ 52 \<Longrightarrow> b + 7 * int n \<le> 1000 \<Longrightarrow>
   step_loop n demo_confetti rng (one_piece (rat_of_int a / 2) (rat_of_int b / 2), k) =
     Inr (one_piece (rat_of_int (a + int n) / 2) (rat_of_int (b + 7 * int n) / 2), k)"
proof (induction n arbitrary: a b)
  case 0
  then show ?case by simp
next
  case (Suc n)
  have s: "step demo_confetti rng (one_piece (rat_of_int a / 2) (rat_of_int b / 2), k) =
      Inr (one_piece (rat_of_int (a + 1) / 2) (rat_of_int (b + 7) / 2), k)"
    using Suc.prems by (intro step_one_piece_fall) simp_all
  have l: "step_loop n demo_confetti rng (one_piece (rat_of_int (a + 1) / 2) (rat_of_int (b + 7) / 2), k) =
      Inr (one_piece (rat_of_int (a + 1 + int n) / 2) (rat_of_int (b + 7 + 7 * int n) / 2), k)"
    using Suc.prems by (intro Suc.IH) simp_all
  have e: "a + 1 + int n = a + int (Suc n)" "b + 7 + 7 * int n = b + 7 * int (Suc n)"
    by simp_all
  have "step_loop (Suc n) demo_confetti rng (one_piece (rat_of_int a / 2) (rat_of_int b / 2), k) =
      step_loop n demo_confetti rng (one_piece (rat_of_int (a + 1) / 2) (rat_of_int (b + 7) / 2), k)"
    by (simp only: step_loop.simps s sum.case)
  then show ?case
    by (simp only: l e)
qed

text \<open>
  C3 (as the code has it). When the pieces' shapes are distinct items with four
  coordinates and the width is not negative, \<open>step\<close> succeeds and draws one random number
  for each piece that leaves the canvas. It moves every piece by \<open>(drift, speed)\<close>, each
  coordinate becoming the float sum. A piece whose top edge is then beyond \<open>height\<close> is
  moved again, by the float differences \<open>r - x1\<close> and \<open>-height - (y2 - y1)\<close> taken at its
  new place, where \<open>r\<close> is the integer of \<open>[0, width]\<close> that \<open>randint\<close> returns on the
  generator's next value (the values are used in the order of the pieces). No item changes
  its kind, colour or tags, none appears or disappears, items that are not pieces do not
  move, and the tuples \<open>(shape, speed, drift)\<close> are not written by \<open>step\<close>.
\<close>

theorem step_effect:
  assumes "distinct (map fst (pieces cf))"
    and "\<forall>p \<in> set (pieces cf). length (fcanvas_coords c (fst p)) = 4"
    and "0 \<le> cf_w cf"
  shows "\<exists>c'. step cf rng (c, k) = Inr (c', k + length (filter (leaves (cf_h cf) c) (pieces cf))) \<and>
     (\<forall>j. j \<notin> fst ` set (pieces cf) \<longrightarrow> fcanvas_coords c' j = fcanvas_coords c j) \<and>
     (\<forall>j. appearance c' j = appearance c j) \<and>
     (\<forall>i shape speed drift x1 y1 x2 y2.
        i < length (pieces cf) \<and> pieces cf ! i = (shape, speed, drift) \<and>
        fcanvas_coords c shape = [x1, y1, x2, y2] \<longrightarrow>
        (if rat_of_int (cf_h cf) < fadd y1 speed then
           \<exists>r. randint 0 (cf_w cf)
                  (rng (k + length (filter (leaves (cf_h cf) c) (take i (pieces cf))))) = Inr r \<and>
             0 \<le> r \<and> r \<le> cf_w cf \<and>
             fcanvas_coords c' shape =
               [fadd (fadd x1 drift) (fsub (float_of_int r) (fadd x1 drift)),
                fadd (fadd y1 speed)
                  (fsub (float_of_int (- cf_h cf)) (fsub (fadd y2 speed) (fadd y1 speed))),
                fadd (fadd x2 drift) (fsub (float_of_int r) (fadd x1 drift)),
                fadd (fadd y2 speed)
                  (fsub (float_of_int (- cf_h cf)) (fsub (fadd y2 speed) (fadd y1 speed)))]
         else fcanvas_coords c' shape = [fadd x1 drift, fadd y1 speed, fadd x2 drift, fadd y2 speed]))"
proof -
  define w where "w = cf_w cf"
  define h where "h = cf_h cf"
  define post :: "rat list \<Rightarrow> rat list \<Rightarrow> nat \<Rightarrow> rat \<Rightarrow> rat \<Rightarrow> bool" where
    "post = (\<lambda>cs cs' j speed drift.
       \<forall>x1 y1 x2 y2. cs = [x1, y1, x2, y2] \<longrightarrow>
        (if rat_of_int h < fadd y1 speed then
           \<exists>r. randint 0 w (rng j) = Inr r \<and> 0 \<le> r \<and> r \<le> w \<and>
             cs' =
               [fadd (fadd x1 drift) (fsub (float_of_int r) (fadd x1 drift)),
                fadd (fadd y1 speed)
                  (fsub (float_of_int (- h)) (fsub (fadd y2 speed) (fadd y1 speed))),
                fadd (fadd x2 drift) (fsub (float_of_int r) (fadd x1 drift)),
                fadd (fadd y2 speed)
                  (fsub (float_of_int (- h)) (fsub (fadd y2 speed) (fadd y1 speed)))]
         else cs' = [fadd x1 drift, fadd y1 speed, fadd x2 drift, fadd y2 speed]))"
  have w: "0 \<le> w" using assms(3) by (simp add: w_def)
  have loop: "distinct (map fst ps) \<Longrightarrow> \<forall>p \<in> set ps. length (fcanvas_coords c (fst p)) = 4 \<Longrightarrow>
     \<exists>c'. step_pieces w h rng ps (c, k) = Inr (c', k + length (filter (leaves h c) ps)) \<and>
     (\<forall>j. j \<notin> fst ` set ps \<longrightarrow> fcanvas_coords c' j = fcanvas_coords c j) \<and>
     (\<forall>j. appearance c' j = appearance c j) \<and>
     (\<forall>i shape speed drift. i < length ps \<and> ps ! i = (shape, speed, drift) \<longrightarrow>
        post (fcanvas_coords c shape) (fcanvas_coords c' shape)
          (k + length (filter (leaves h c) (take i ps))) speed drift)" for ps c k
  proof (induction ps arbitrary: c k)
    case Nil
    then show ?case by simp
  next
    case (Cons p ps)
    obtain shape speed drift where p: "p = (shape, speed, drift)" by (cases p)
    have nin: "shape \<notin> fst ` set ps" and d: "distinct (map fst ps)"
      using Cons.prems(1) by (auto simp: p)
    have len: "length (fcanvas_coords c shape) = 4"
      using Cons.prems(2) by (simp add: p)
    define k1 where "k1 = (if leaves h c p then Suc k else k)"
    obtain c1 where s1: "step_piece w h rng (shape, speed, drift) (c, k) = Inr (c1, k1)"
      and fr1: "\<forall>j. j \<noteq> shape \<longrightarrow> fcanvas_coords c1 j = fcanvas_coords c j"
      and ap1: "\<forall>j. appearance c1 j = appearance c j"
      and mv1: "post (fcanvas_coords c shape) (fcanvas_coords c1 shape) k speed drift"
      using step_piece_result[OF len w, of h rng speed drift k]
      unfolding post_def k1_def p by blast
    have same: "fcanvas_coords c1 (fst q) = fcanvas_coords c (fst q)" if "q \<in> set ps" for q
      using fr1 nin that by (metis imageI)
    have lv: "leaves h c1 q = leaves h c q" if "q \<in> set ps" for q
      by (simp add: leaves_def same[OF that])
    have flt: "filter (leaves h c1) ps = filter (leaves h c) ps"
      by (rule filter_cong) (simp_all add: lv)
    have flt_take: "filter (leaves h c1) (take i ps) = filter (leaves h c) (take i ps)" for i
      by (rule filter_cong) (auto dest: in_set_takeD simp: lv)
    have len1: "\<forall>q \<in> set ps. length (fcanvas_coords c1 (fst q)) = 4"
      using Cons.prems(2) same by simp
    obtain c' where s2: "step_pieces w h rng ps (c1, k1) =
          Inr (c', k1 + length (filter (leaves h c1) ps))"
      and fr2: "\<forall>j. j \<notin> fst ` set ps \<longrightarrow> fcanvas_coords c' j = fcanvas_coords c1 j"
      and ap2: "\<forall>j. appearance c' j = appearance c1 j"
      and mv2: "\<forall>i shape speed drift. i < length ps \<and> ps ! i = (shape, speed, drift) \<longrightarrow>
        post (fcanvas_coords c1 shape) (fcanvas_coords c' shape)
          (k1 + length (filter (leaves h c1) (take i ps))) speed drift"
      using Cons.IH[OF d len1, of k1] by blast
    have count: "k1 + length (filter (leaves h c1) ps) = k + length (filter (leaves h c) (p # ps))"
      by (simp add: flt k1_def)
    have whole: "step_pieces w h rng (p # ps) (c, k) =
        Inr (c', k + length (filter (leaves h c) (p # ps)))"
      by (simp add: p s1 s2 count[unfolded p])
    have frame: "\<forall>j. j \<notin> fst ` set (p # ps) \<longrightarrow> fcanvas_coords c' j = fcanvas_coords c j"
      using fr1 fr2 by (simp add: p)
    have app: "\<forall>j. appearance c' j = appearance c j"
      using ap1 ap2 by simp
    have hd: "fcanvas_coords c' shape = fcanvas_coords c1 shape"
      using fr2 nin by simp
    have mv: "post (fcanvas_coords c sh) (fcanvas_coords c' sh)
          (k + length (filter (leaves h c) (take i (p # ps)))) sp dr"
      if i: "i < length (p # ps)" and at: "(p # ps) ! i = (sh, sp, dr)" for i sh sp dr
    proof (cases i)
      case 0
      then have e: "sh = shape" "sp = speed" "dr = drift"
        using at by (simp_all add: p)
      show ?thesis
        using mv1 by (simp add: 0 e hd)
    next
      case (Suc i')
      then have i': "i' < length ps" and at': "ps ! i' = (sh, sp, dr)"
        using i at by simp_all
      then have mem: "(sh, sp, dr) \<in> set ps"
        by (metis nth_mem)
      have cs: "fcanvas_coords c1 sh = fcanvas_coords c sh"
        using same[OF mem] by simp
      have idx: "k1 + length (filter (leaves h c1) (take i' ps)) =
          k + length (filter (leaves h c) (take i (p # ps)))"
        by (simp add: Suc flt_take k1_def)
      show ?thesis
        using mv2 i' at' by (simp add: cs[symmetric] idx[symmetric])
    qed
    have mv_all: "\<forall>i shape speed drift. i < length (p # ps) \<and> (p # ps) ! i = (shape, speed, drift) \<longrightarrow>
        post (fcanvas_coords c shape) (fcanvas_coords c' shape)
          (k + length (filter (leaves h c) (take i (p # ps)))) speed drift"
      using mv by blast
    show ?case
      by (rule exI[of _ c'], intro conjI) (fact whole | fact frame | fact app | fact mv_all)+
  qed
  from loop[of "pieces cf" c k, OF assms(1,2)] show ?thesis
    unfolding step_def w_def h_def post_def by blast
qed

theorem step_effect_witness:
  "\<exists>c'. step \<lparr>cf_w = 800, cf_h = 500, pieces = [(1, 2, 1 / 2), (2, 3, - 1)]\<rparr> (\<lambda>k. 42) (two_pieces, 0)
        = Inr (c', 1)
     \<and> fcanvas_coords c' 1 = [21 / 2, 102, 31 / 2, 107]
     \<and> fcanvas_coords c' 2 = [42, - 1, 45, 2]
     \<and> appearance c' 2 = Some (Oval, ''#fca311'', [''confetti''])"
proof -
  define cf where "cf = \<lparr>cf_w = 800, cf_h = 500, pieces = [(1, 2, 1 / 2), (2, 3, - 1)]\<rparr>"
  have d: "distinct (map fst (pieces cf))"
    by (simp add: cf_def)
  have l: "\<forall>p \<in> set (pieces cf). length (fcanvas_coords two_pieces (fst p)) = 4"
    by (simp add: cf_def two_pieces_coords del: One_nat_def)
  have w: "0 \<le> cf_w cf"
    by (simp add: cf_def)
  have lv: "\<not> leaves 500 two_pieces (1, 2, 1 / 2)" "leaves 500 two_pieces (2, 3, - 1)"
    by (simp_all add: leaves_def two_pieces_coords fadd_def del: One_nat_def)
  obtain c' where s: "step cf (\<lambda>k. 42) (two_pieces, 0) =
        Inr (c', 0 + length (filter (leaves (cf_h cf) two_pieces) (pieces cf)))"
    and ap: "\<forall>j. appearance c' j = appearance two_pieces j"
    and mv: "\<forall>i shape speed drift x1 y1 x2 y2.
        i < length (pieces cf) \<and> pieces cf ! i = (shape, speed, drift) \<and>
        fcanvas_coords two_pieces shape = [x1, y1, x2, y2] \<longrightarrow>
        (if rat_of_int (cf_h cf) < fadd y1 speed then
           \<exists>r. randint 0 (cf_w cf)
                  ((\<lambda>k. 42) (0 + length (filter (leaves (cf_h cf) two_pieces) (take i (pieces cf))))) = Inr r \<and>
             0 \<le> r \<and> r \<le> cf_w cf \<and>
             fcanvas_coords c' shape =
               [fadd (fadd x1 drift) (fsub (float_of_int r) (fadd x1 drift)),
                fadd (fadd y1 speed)
                  (fsub (float_of_int (- cf_h cf)) (fsub (fadd y2 speed) (fadd y1 speed))),
                fadd (fadd x2 drift) (fsub (float_of_int r) (fadd x1 drift)),
                fadd (fadd y2 speed)
                  (fsub (float_of_int (- cf_h cf)) (fsub (fadd y2 speed) (fadd y1 speed)))]
         else fcanvas_coords c' shape = [fadd x1 drift, fadd y1 speed, fadd x2 drift, fadd y2 speed])"
    using step_effect[OF d l w, of "\<lambda>k. 42" 0] by blast
  have k: "step cf (\<lambda>k. 42) (two_pieces, 0) = Inr (c', 1)"
    using s lv by (simp add: cf_def del: One_nat_def)
  have p1: "fcanvas_coords c' 1 = [21 / 2, 102, 31 / 2, 107]"
    using mv[rule_format, of 0 1 2 "1 / 2" 10 100 15 105]
    by (simp add: cf_def two_pieces_coords fadd_def del: One_nat_def)
  have p2: "fcanvas_coords c' 2 = [42, - 1, 45, 2]"
    using mv[rule_format, of 1 2 3 "- 1" 200 499 203 502]
    by (simp add: cf_def two_pieces_coords fadd_def fsub_def float_of_int_def randint_def
        del: One_nat_def)
  have a2: "appearance c' 2 = Some (Oval, ''#fca311'', [''confetti''])"
    using ap by (simp add: appearance_def two_pieces_def fcanvas_item_def)
  show ?thesis
    using k p1 p2 a2 unfolding cf_def by blast
qed

text \<open>
  C3 (as the claim states it) fails. A piece created at \<open>y = -200\<close> with speed \<open>3.5\<close> on a
  canvas of height \<open>500\<close> has its top edge at \<open>500\<close> after 200 steps, which is not beyond
  the height. The next step moves it to \<open>503.5\<close> and puts it back at \<open>0.5\<close>, not above \<open>0\<close>.
  All of these numbers are floats, and every sum is exact.
\<close>

theorem step_respawn_counterexample:
  "step_loop 200 demo_confetti (\<lambda>k. 42) (one_piece 10 (- 200), 0) = Inr (one_piece 110 500, 0)
   \<and> map_sum id (\<lambda>s. fcanvas_coords (fst s) 1) (step demo_confetti (\<lambda>k. 42) (one_piece 110 500, 0)) =
       Inr [42, 1 / 2, 45, 7 / 2]"
proof -
  have "step_loop 200 demo_confetti (\<lambda>k. 42) (one_piece 10 (- 200), 0) = Inr (one_piece 110 500, 0)"
    using step_loop_one_piece[of 20 200 "- 400" "\<lambda>k. 42" 0] by simp
  moreover have "map_sum id (\<lambda>s. fcanvas_coords (fst s) 1)
      (step demo_confetti (\<lambda>k. 42) (one_piece 110 500, 0)) = Inr [42, 1 / 2, 45, 7 / 2]"
    by (simp add: step_def demo_confetti_def step_piece_def one_piece_def fcanvas_move_def
        fcanvas_coords_def fcanvas_item_def randint_def fadd_def fsub_def float_of_int_def Let_def)
  ultimately show ?thesis by simp
qed

text \<open>
  Where the sums are not exact the rounding shows. At the coordinates of \<open>late_piece\<close> the
  step moves the piece beyond the height \<open>500\<close> and back to the top with \<open>randint\<close>
  returning \<open>98\<close>; the left edge ends at \<open>97.99999999999999\<close>, just below \<open>98\<close>.
\<close>

lemma step_respawn_rounds:
  "map_sum id (\<lambda>s. fcanvas_coords (fst s) 1) (step late_confetti (\<lambda>k. 98) (late_piece, 0)) =
     Inr [6896136929411071 / 70368744177664, - (29605200850077 / 17592186044416),
          3553621580972033 / 35184372088832, 23171357283171 / 17592186044416]
   \<and> 6896136929411071 / 70368744177664 < (98 :: rat)"
proof -
  have m1: "fadd (- (6704756475332449 / 70368744177664)) (- (319203290434141 / 562949953421312)) = - (6744656886636717 / 70368744177664)"
    using fl_binade[of "6" "- (53957255093093733 / 562949953421312)"] by (simp add: fadd_def power_int_minus Let_def)
  have m2: "fadd (4389646347137867 / 8796093022208) (639546963446993 / 281474976710656) = 8819264379491171 / 17592186044416"
    using fl_binade[of "8" "141108230071858737 / 281474976710656"] by (simp add: fadd_def power_int_minus Let_def)
  have m3: "fadd (- (3246825121399727 / 35184372088832)) (- (319203290434141 / 562949953421312)) = - (3266775327051861 / 35184372088832)"
    using fl_binade[of "6" "- (52268405232829773 / 562949953421312)"] by (simp add: fadd_def power_int_minus Let_def)
  have m4: "fadd (4416034626204491 / 8796093022208) (639546963446993 / 281474976710656) = 8872040937624419 / 17592186044416"
    using fl_binade[of "8" "141952655001990705 / 281474976710656"] by (simp add: fadd_def power_int_minus Let_def)
  have h1: "fsub (8872040937624419 / 17592186044416) (8819264379491171 / 17592186044416) = 3"
    using fl_binade[of "1" "3"] by (simp add: fsub_def power_int_minus Let_def)
  have h2: "fsub (- 500) (3) = - 503"
    using fl_binade[of "8" "- 503"] by (simp add: fsub_def power_int_minus Let_def)
  have w1: "fsub (98) (- (6744656886636717 / 70368744177664)) = 3410198454011947 / 17592186044416"
    using fl_binade[of "7" "13640793816047789 / 70368744177664"] by (simp add: fsub_def power_int_minus Let_def)
  have f1: "fadd (- (6744656886636717 / 70368744177664)) (3410198454011947 / 17592186044416) = 6896136929411071 / 70368744177664"
    using fl_binade[of "6" "6896136929411071 / 70368744177664"] by (simp add: fadd_def power_int_minus Let_def)
  have f2: "fadd (8819264379491171 / 17592186044416) (- 503) = - (29605200850077 / 17592186044416)"
    using fl_binade[of "0" "- (29605200850077 / 17592186044416)"] by (simp add: fadd_def power_int_minus Let_def)
  have f3: "fadd (- (3266775327051861 / 35184372088832)) (3410198454011947 / 17592186044416) = 3553621580972033 / 35184372088832"
    using fl_binade[of "6" "3553621580972033 / 35184372088832"] by (simp add: fadd_def power_int_minus Let_def)
  have f4: "fadd (8872040937624419 / 17592186044416) (- 503) = 23171357283171 / 17592186044416"
    using fl_binade[of "0" "23171357283171 / 17592186044416"] by (simp add: fadd_def power_int_minus Let_def)
  have r: "float_of_int 98 = 98" "float_of_int (- 500) = - 500"
    by (simp_all add: float_of_int_def)
  show ?thesis
    by (simp add: step_def late_confetti_def late_piece_def step_piece_def fcanvas_move_def
        fcanvas_coords_def fcanvas_item_def randint_def Let_def m1 m2 m3 m4 h1 h2 w1 f1 f2 f3 f4 r)
qed

text \<open>
  The test \<open>y1 > self.h\<close> sees the rounded sum: a piece with its top edge at \<open>498.5\<close> and
  the speed \<open>1.5000000000000002\<close> is moved to \<open>500.0\<close> exactly, which is not beyond the
  height \<open>500\<close>, although the exact sum is.
\<close>

lemma one_piece_coords: "fcanvas_coords (one_piece x y) 1 = [x, y, x + 3, y + 3]"
  by (simp add: one_piece_def fcanvas_coords_def fcanvas_item_def)

lemma rounded_sum_not_beyond:
  "fadd (997 / 2) (6755399441055745 / 4503599627370496) = 500
   \<and> (500 :: rat) < 997 / 2 + 6755399441055745 / 4503599627370496
   \<and> \<not> leaves 500 (one_piece 10 (997 / 2)) (1, 6755399441055745 / 4503599627370496, 0)"
proof -
  have a: "fadd (997 / 2) (6755399441055745 / 4503599627370496) = 500"
    using fl_binade[of 8 "997 / 2 + 6755399441055745 / 4503599627370496"]
    by (simp add: fadd_def power_int_minus Let_def)
  have "\<not> leaves 500 (one_piece 10 (997 / 2)) (1, 6755399441055745 / 4503599627370496, 0)"
    by (simp add: leaves_def one_piece_coords a del: One_nat_def)
  with a show ?thesis by simp
qed

end
